theory Spec2Isabelle
  imports Main "HOL-Library.Word"
begin

unbundle bit_operations_syntax

section \<open>The debounced rotary encoder (class RotaryEncoder)\<close>

text \<open>
  A shallow embedding of \<^verbatim>\<open>RotaryEncoder.h\<close> and \<^verbatim>\<open>RotaryEncoder.cpp\<close>.
  The object is a record of its data members, each member function takes the object
  and returns the updated object together with the list of calls it made to the
  outside world, in program order: pin reads, pin writes, clock reads and callbacks.
  What a pin read or a clock read returns is an input of the poll. A callback calls
  the handler registered in its slot; the handler is the caller's code, and what it
  does to the encoder object (see \<open>handler\<close> below) happens at the place of the call.
\<close>

subsection \<open>Machine types and platform constants\<close>

type_synonym u8 = "8 word"
type_synonym u16 = "16 word"
type_synonym u32 = "32 word"

text \<open>
  \<^verbatim>\<open>HIGH\<close>, \<^verbatim>\<open>LOW\<close>, \<^verbatim>\<open>GPIO_NUM_2\<close> and \<^verbatim>\<open>GPIO_NUM_4\<close> come from the platform header
  \<^verbatim>\<open>Arduino.h\<close> (ESP32 core), with the values that header gives them.
  \<^verbatim>\<open>unsigned long\<close> has 32 bits on that platform.
\<close>

definition HIGH :: u8 where
  "HIGH = 1"

definition LOW :: u8 where
  "LOW = 0"

definition GPIO_NUM_2 :: u8 where
  "GPIO_NUM_2 = 2"

definition GPIO_NUM_4 :: u8 where
  "GPIO_NUM_4 = 4"

subsection \<open>The object\<close>

text \<open>
  A \<^verbatim>\<open>CallbackFunction\<close> is code of the caller. The members of the class are
  private, so all a handler can do to the encoder is call its public operations:
  \<^verbatim>\<open>setDebouncingRotEncByTable\<close>, the five operations that register a handler, and
  \<^verbatim>\<open>loop()\<close>. The handlers of the repository call the first one or none, and a
  handler is modelled by what it does with it: \<open>Nop\<close> does not call it (the default
  \<^verbatim>\<open>_nop\<close>, and the \<^verbatim>\<open>onDoubleClick\<close>, \<^verbatim>\<open>countUp\<close> and \<^verbatim>\<open>countDown\<close> of the test
  program), \<open>SetsByTable b\<close> calls it, last with the argument \<open>b\<close> (the test
  program's \<^verbatim>\<open>onClick\<close> is \<open>SetsByTable True\<close>, its \<^verbatim>\<open>onLongClick\<close> is
  \<open>SetsByTable False\<close>). Handlers that register other handlers or call \<^verbatim>\<open>loop()\<close>
  themselves are not modelled.
\<close>

datatype handler = Nop | SetsByTable bool

text \<open>
  The data members of the class, in the order of the header, without the leading
  underscore.
\<close>

record RotaryEncoder =
  onClick :: handler
  onLongClick :: handler
  onDoubleClick :: handler
  onCW :: handler
  onCCW :: handler
  clkState :: u8
  prevClkState :: u8
  cleanedClkState :: u8
  prevCleanedClkState :: u8
  buttonState :: u8
  prevButtonState :: u8
  dataState :: u8
  prevDataState :: u8
  cleanedDataState :: u8
  prevCleanedDataState :: u8
  pinClk :: u8
  pinData :: u8
  pinButton :: u8
  clickCount :: u8
  msDebounce :: u32
  msLongClick :: u32
  msDoubleClickGap :: u32
  msButtonDown :: u32
  msFirstClick :: u32
  newTransition :: u8
  transitions :: u16
  debouncingRotEncByTable :: bool

datatype callback = OnClick | OnLongClick | OnDoubleClick | OnCW | OnCCW

datatype effect =
    PinModeInputPullup u8
  | DigitalRead u8
  | DigitalWrite u8 u8
  | Millis
  | Call callback

text \<open>
  What the outside world answers during one call of \<^verbatim>\<open>loop()\<close>: the level of the
  button pin, of the clock pin and of the data pin (each is read once per poll;
  \<open>True\<close> is \<^verbatim>\<open>HIGH\<close>), and the values of the first, second and third call of
  \<^verbatim>\<open>millis()\<close> (a poll calls it at most three times).
\<close>

record poll_input =
  btn :: bool
  clk :: bool
  dat :: bool
  ms1 :: u32
  ms2 :: u32
  ms3 :: u32

definition digitalRead :: "bool \<Rightarrow> u8" where
  "digitalRead b = (if b then HIGH else LOW)"

subsection \<open>Construction\<close>

text \<open>
  The default member initialisers and the two constructors. Members without an
  initialiser keep whatever the storage held: \<open>mem\<close> is that storage.
\<close>

definition memberInit :: "RotaryEncoder \<Rightarrow> RotaryEncoder" where
  "memberInit mem = mem\<lparr>
     onClick := Nop,
     onLongClick := Nop,
     onDoubleClick := Nop,
     onCW := Nop,
     onCCW := Nop,
     clkState := HIGH,
     prevClkState := LOW,
     prevCleanedClkState := HIGH,
     buttonState := HIGH,
     dataState := HIGH,
     clickCount := 0,
     msDebounce := 50,
     msLongClick := 300,
     msDoubleClickGap := 250,
     msFirstClick := 0,
     newTransition := 0,
     transitions := 0,
     debouncingRotEncByTable := True\<rparr>"

definition RotaryEncoder2 :: "RotaryEncoder \<Rightarrow> u8 \<Rightarrow> u8 \<Rightarrow> RotaryEncoder \<times> effect list" where
  "RotaryEncoder2 mem pClk pData =
     ((memberInit mem)\<lparr>pinClk := pClk, pinData := pData\<rparr>,
      [PinModeInputPullup pClk, PinModeInputPullup pData])"

definition RotaryEncoder3 :: "RotaryEncoder \<Rightarrow> u8 \<Rightarrow> u8 \<Rightarrow> u8 \<Rightarrow> RotaryEncoder \<times> effect list" where
  "RotaryEncoder3 mem pClk pData pButton =
     ((memberInit mem)\<lparr>pinClk := pClk, pinData := pData, pinButton := pButton\<rparr>,
      [PinModeInputPullup pClk, PinModeInputPullup pData, PinModeInputPullup pButton])"

text \<open>
  Storage of static duration is zero-initialised before the constructor runs (the
  five callback pointers are null there; \<open>Nop\<close> stands for them, and the member
  initialisers overwrite them before any call).
\<close>

definition zeroMem :: RotaryEncoder where
  "zeroMem = \<lparr>
     onClick = Nop, onLongClick = Nop, onDoubleClick = Nop, onCW = Nop, onCCW = Nop,
     clkState = 0, prevClkState = 0, cleanedClkState = 0, prevCleanedClkState = 0,
     buttonState = 0, prevButtonState = 0, dataState = 0, prevDataState = 0,
     cleanedDataState = 0, prevCleanedDataState = 0,
     pinClk = 0, pinData = 0, pinButton = 0, clickCount = 0,
     msDebounce = 0, msLongClick = 0, msDoubleClickGap = 0,
     msButtonDown = 0, msFirstClick = 0,
     newTransition = 0, transitions = 0, debouncingRotEncByTable = False\<rparr>"

subsection \<open>Configuration and callbacks\<close>

definition setDebouncingRotEncByTable :: "RotaryEncoder \<Rightarrow> bool \<Rightarrow> RotaryEncoder" where
  "setDebouncingRotEncByTable s byTable = s\<lparr>debouncingRotEncByTable := byTable\<rparr>"

definition addOnClickCB :: "RotaryEncoder \<Rightarrow> handler \<Rightarrow> RotaryEncoder" where
  "addOnClickCB s cb = s\<lparr>onClick := cb\<rparr>"

definition addOnLongClickCB :: "RotaryEncoder \<Rightarrow> handler \<Rightarrow> RotaryEncoder" where
  "addOnLongClickCB s cb = s\<lparr>onLongClick := cb\<rparr>"

definition addOnDoubleClickCB :: "RotaryEncoder \<Rightarrow> handler \<Rightarrow> RotaryEncoder" where
  "addOnDoubleClickCB s cb = s\<lparr>onDoubleClick := cb\<rparr>"

definition addOnClockwiseCB :: "RotaryEncoder \<Rightarrow> handler \<Rightarrow> RotaryEncoder" where
  "addOnClockwiseCB s cb = s\<lparr>onCW := cb\<rparr>"

definition addOnCounterClockwiseCB :: "RotaryEncoder \<Rightarrow> handler \<Rightarrow> RotaryEncoder" where
  "addOnCounterClockwiseCB s cb = s\<lparr>onCCW := cb\<rparr>"

text \<open>The handler in a slot, what running a handler does, and a call through a slot.\<close>

fun handlerOf :: "RotaryEncoder \<Rightarrow> callback \<Rightarrow> handler" where
  "handlerOf s OnClick = onClick s"
| "handlerOf s OnLongClick = onLongClick s"
| "handlerOf s OnDoubleClick = onDoubleClick s"
| "handlerOf s OnCW = onCW s"
| "handlerOf s OnCCW = onCCW s"

fun runHandler :: "handler \<Rightarrow> RotaryEncoder \<Rightarrow> RotaryEncoder" where
  "runHandler Nop s = s"
| "runHandler (SetsByTable b) s = setDebouncingRotEncByTable s b"

definition invoke :: "callback \<Rightarrow> RotaryEncoder \<Rightarrow> RotaryEncoder \<times> effect list" where
  "invoke c s = (runHandler (handlerOf s c) s, [Call c])"

subsection \<open>Debouncing by cleaning of clock and data signal\<close>

text \<open>
  The routine in the order of its statements: lines 77 to 82 (\<open>cleanClock\<close>), lines
  84 to 89 (\<open>cleanData\<close>), lines 90 to 94 (\<open>rotationCallbacks\<close>; both edge flags are
  computed before the first callback), and the routine as a whole.
\<close>

definition cleanClock :: "RotaryEncoder \<Rightarrow> RotaryEncoder \<times> effect list" where
  "cleanClock s =
     (if prevClkState s \<noteq> clkState s
      then (let t = s\<lparr>prevClkState := clkState s, cleanedClkState := dataState s\<rparr>
            in (t, [DigitalWrite GPIO_NUM_2 (cleanedClkState t)]))
      else (s, []))"

definition cleanData :: "RotaryEncoder \<Rightarrow> RotaryEncoder \<times> effect list" where
  "cleanData s =
     (if prevDataState s \<noteq> dataState s
      then (let t = s\<lparr>prevDataState := dataState s, cleanedDataState := clkState s\<rparr>
            in (t, [DigitalWrite GPIO_NUM_4 (cleanedDataState t)]))
      else (s, []))"

definition rotationCallbacks :: "RotaryEncoder \<Rightarrow> RotaryEncoder \<times> effect list" where
  "rotationCallbacks s =
     (let risingClk = (prevCleanedClkState s = LOW \<and> cleanedClkState s = HIGH);
          risingData = (prevCleanedDataState s = LOW \<and> cleanedDataState s = HIGH);
          (s1, c1) =
            (if risingClk \<and> cleanedDataState s = LOW then invoke OnCW s else (s, []));
          (s2, c2) =
            (if risingData \<and> cleanedClkState s1 = LOW then invoke OnCCW s1 else (s1, []))
      in (s2, c1 @ c2))"

definition debounceRotaryByCleaning :: "RotaryEncoder \<Rightarrow> poll_input \<Rightarrow> RotaryEncoder \<times> effect list" where
  "debounceRotaryByCleaning s i =
     (let s1 = s\<lparr>clkState := digitalRead (clk i)\<rparr>;
          s2 = s1\<lparr>dataState := digitalRead (dat i)\<rparr>;
          (s3, w1) = cleanClock s2;
          (s4, w2) = cleanData s3;
          (s5, c) = rotationCallbacks s4;
          s6 = s5\<lparr>prevCleanedClkState := cleanedClkState s5\<rparr>;
          s7 = s6\<lparr>prevCleanedDataState := cleanedDataState s6\<rparr>
      in (s7, [DigitalRead (pinClk s), DigitalRead (pinData s)] @ w1 @ w2 @ c))"

subsection \<open>Debouncing by table lookup of valid transitions\<close>

definition validTransitions :: "u8 list" where
  "validTransitions = [0,1,1,0,1,0,0,1,1,0,0,1,0,1,1,0]"

text \<open>
  Lines 107 to 110: shift the previous index two bits to the left, or the clock level
  in as bit 1 and the data level as bit 0, keep the low four bits.
\<close>

definition composeTransition :: "u8 \<Rightarrow> bool \<Rightarrow> bool \<Rightarrow> u8" where
  "composeTransition n c d =
     (let n1 = push_bit 2 n;
          n2 = (if digitalRead c \<noteq> 0 then n1 OR 2 else n1);
          n3 = (if digitalRead d \<noteq> 0 then n2 OR 1 else n2)
      in n3 AND 15)"

definition debounceRotaryByTable :: "RotaryEncoder \<Rightarrow> poll_input \<Rightarrow> RotaryEncoder \<times> effect list" where
  "debounceRotaryByTable s i =
     (let s1 = s\<lparr>newTransition := composeTransition (newTransition s) (clk i) (dat i)\<rparr>;
          rd = [DigitalRead (pinClk s), DigitalRead (pinData s)]
      in if validTransitions ! unat (newTransition s1) \<noteq> 0
         then
           (let s2 = s1\<lparr>transitions := push_bit 4 (transitions s1)\<rparr>;
                s3 = s2\<lparr>transitions := transitions s2 OR ucast (newTransition s2)\<rparr>;
                (s4, c1) =
                  (if transitions s3 AND 0xff = 0b00010111 then invoke OnCW s3 else (s3, []));
                (s5, c2) =
                  (if transitions s4 AND 0xff = 0b00101011 then invoke OnCCW s4 else (s4, []))
            in (s5, rd @ c1 @ c2))
         else (s1, rd))"

subsection \<open>The pushbutton\<close>

text \<open>
  The last \<^verbatim>\<open>else\<close> of \<^verbatim>\<open>_debounceButton\<close>, the branch taken when the poll saw neither
  a press nor a release. \<^verbatim>\<open>millis()\<close> is called only when \<^verbatim>\<open>_clickCount == 1\<close>
  (the \<^verbatim>\<open>&&\<close> is short-circuit).
\<close>

definition nothingToDo :: "RotaryEncoder \<Rightarrow> poll_input \<Rightarrow> RotaryEncoder \<times> effect list" where
  "nothingToDo s i =
     (let m = (if clickCount s = 1 then [Millis] else [])
      in if clickCount s = 1 \<and> ms1 i - msFirstClick s > msDoubleClickGap s
         then (let (s1, e) = invoke OnClick (s\<lparr>msFirstClick := 0, clickCount := 0\<rparr>)
               in (s1, m @ e))
         else if clickCount s > 1
         then (let (s1, e) = invoke OnDoubleClick (s\<lparr>msFirstClick := 0, clickCount := 0\<rparr>)
               in (s1, m @ e))
         else (s, m))"

definition debounceButton :: "RotaryEncoder \<Rightarrow> poll_input \<Rightarrow> RotaryEncoder \<times> effect list" where
  "debounceButton s i =
     (let s1 = s\<lparr>prevButtonState := buttonState s\<rparr>;
          s2 = s1\<lparr>buttonState := digitalRead (btn i)\<rparr>;
          rd = [DigitalRead (pinButton s)]
      in if prevButtonState s2 = HIGH \<and> buttonState s2 = LOW
         then (s2\<lparr>msButtonDown := ms1 i\<rparr>, rd @ [Millis])
         else if prevButtonState s2 = LOW \<and> buttonState s2 = HIGH
         then
           (if ms1 i - msButtonDown s2 < msDebounce s2
            then (s2, rd @ [Millis])
            else if ms2 i - msButtonDown s2 > msLongClick s2
            then (let (s3, e) = invoke OnLongClick s2 in (s3, rd @ [Millis, Millis] @ e))
            else
              (let s3 = s2\<lparr>clickCount := clickCount s2 + 1\<rparr>
               in if clickCount s3 = 1
                  then (s3\<lparr>msFirstClick := ms3 i\<rparr>, rd @ [Millis, Millis, Millis])
                  else (s3, rd @ [Millis, Millis])))
         else
           (let (s3, e) = nothingToDo s2 i in (s3, rd @ e)))"

subsection \<open>The poll\<close>

text \<open>
  Line 187 reads the mode after \<^verbatim>\<open>_debounceButton()\<close> has returned, so a mode set by
  the handler the button pass called decides which rotary pass this poll runs.
\<close>

definition loop :: "RotaryEncoder \<Rightarrow> poll_input \<Rightarrow> RotaryEncoder \<times> effect list" where
  "loop s i =
     (let (s1, e1) = debounceButton s i;
          (s2, e2) = (if debouncingRotEncByTable s1
                      then debounceRotaryByTable s1 i
                      else debounceRotaryByCleaning s1 i)
      in (s2, e1 @ e2))"

text \<open>The caller's main loop: one poll per input, the calls of all polls in order.\<close>

fun run :: "RotaryEncoder \<Rightarrow> poll_input list \<Rightarrow> RotaryEncoder \<times> effect list" where
  "run s [] = (s, [])"
| "run s (i # is) =
     (let (s1, e1) = loop s i;
          (s2, e2) = run s1 is
      in (s2, e1 @ e2))"

text \<open>The callbacks among the calls, in order, and the pin writes among them.\<close>

fun callbacks :: "effect list \<Rightarrow> callback list" where
  "callbacks [] = []"
| "callbacks (Call c # es) = c # callbacks es"
| "callbacks (e # es) = callbacks es"

fun writes :: "effect list \<Rightarrow> effect list" where
  "writes [] = []"
| "writes (DigitalWrite p v # es) = DigitalWrite p v # writes es"
| "writes (e # es) = writes es"

text \<open>A poll in which every call of \<^verbatim>\<open>millis()\<close> returns the same \<open>t\<close>.\<close>

definition sample :: "u32 \<Rightarrow> bool \<Rightarrow> bool \<Rightarrow> bool \<Rightarrow> poll_input" where
  "sample t b c d = \<lparr>btn = b, clk = c, dat = d, ms1 = t, ms2 = t, ms3 = t\<rparr>"

text \<open>The mode a handler leaves behind when it runs in mode \<open>m\<close>.\<close>

fun nextMode :: "handler \<Rightarrow> bool \<Rightarrow> bool" where
  "nextMode Nop m = m"
| "nextMode (SetsByTable b) m = b"

text \<open>The mode the callbacks of the cleaning routine leave behind.\<close>

definition rotationMode :: "RotaryEncoder \<Rightarrow> bool" where
  "rotationMode s = debouncingRotEncByTable (fst (rotationCallbacks s))"

text \<open>
  What the caller may do to the object between two polls: the calls of the six
  configuration operations.
\<close>

datatype config_op =
    SetDebouncingRotEncByTable bool
  | AddOnClickCB handler
  | AddOnLongClickCB handler
  | AddOnDoubleClickCB handler
  | AddOnClockwiseCB handler
  | AddOnCounterClockwiseCB handler

fun configure1 :: "RotaryEncoder \<Rightarrow> config_op \<Rightarrow> RotaryEncoder" where
  "configure1 s (SetDebouncingRotEncByTable b) = setDebouncingRotEncByTable s b"
| "configure1 s (AddOnClickCB cb) = addOnClickCB s cb"
| "configure1 s (AddOnLongClickCB cb) = addOnLongClickCB s cb"
| "configure1 s (AddOnDoubleClickCB cb) = addOnDoubleClickCB s cb"
| "configure1 s (AddOnClockwiseCB cb) = addOnClockwiseCB s cb"
| "configure1 s (AddOnCounterClockwiseCB cb) = addOnCounterClockwiseCB s cb"

definition configure :: "RotaryEncoder \<Rightarrow> config_op list \<Rightarrow> RotaryEncoder" where
  "configure s ops = foldl configure1 s ops"

text \<open>The object as the next poll finds it: after the poll \<open>i\<close> and the calls \<open>ops\<close>.\<close>

definition afterPoll :: "RotaryEncoder \<Rightarrow> poll_input \<Rightarrow> config_op list \<Rightarrow> RotaryEncoder" where
  "afterPoll s i ops = configure (fst (loop s i)) ops"

text \<open>All five slots hold the default handler.\<close>

definition inert :: "RotaryEncoder \<Rightarrow> bool" where
  "inert s =
     (onClick s = Nop \<and> onLongClick s = Nop \<and> onDoubleClick s = Nop \<and>
      onCW s = Nop \<and> onCCW s = Nop)"

text \<open>The callbacks of the rotary channel and those of the pushbutton.\<close>

definition rotaryCallbacks :: "effect list \<Rightarrow> callback list" where
  "rotaryCallbacks es = filter (\<lambda>c. c = OnCW \<or> c = OnCCW) (callbacks es)"

definition buttonCallbacks :: "effect list \<Rightarrow> callback list" where
  "buttonCallbacks es =
     filter (\<lambda>c. c = OnClick \<or> c = OnLongClick \<or> c = OnDoubleClick) (callbacks es)"

text \<open>An object in static storage built with three pins, as in the test program.\<close>

definition ctrlKnob :: RotaryEncoder where
  "ctrlKnob = fst (RotaryEncoder3 zeroMem 27 26 25)"

text \<open>The members the pushbutton classifier works on, and its three constants.\<close>

definition buttonChannel :: "RotaryEncoder \<Rightarrow> u8 \<times> u8 \<times> u32 \<times> u32" where
  "buttonChannel s = (buttonState s, clickCount s, msButtonDown s, msFirstClick s)"

definition thresholds :: "RotaryEncoder \<Rightarrow> u32 \<times> u32 \<times> u32" where
  "thresholds s = (msDebounce s, msLongClick s, msDoubleClickGap s)"

text \<open>An object in static storage built with the two rotary pins only.\<close>

definition knob2 :: RotaryEncoder where
  "knob2 = fst (RotaryEncoder2 zeroMem 27 26)"

text \<open>
  The index composed from the previous clock and data bits \<open>c0\<close>, \<open>d0\<close> and the current
  ones \<open>c\<close>, \<open>d\<close>.
\<close>

definition transitionIndex :: "bool \<Rightarrow> bool \<Rightarrow> bool \<Rightarrow> bool \<Rightarrow> u8" where
  "transitionIndex c0 d0 c d =
     push_bit 3 (of_bool c0) OR push_bit 2 (of_bool d0) OR push_bit 1 (of_bool c) OR of_bool d"

text \<open>Every poll of the list samples the clock level \<open>c\<close> and the data level \<open>d\<close>.\<close>

definition held :: "bool \<Rightarrow> bool \<Rightarrow> poll_input list \<Rightarrow> bool" where
  "held c d is = list_all (\<lambda>i. clk i = c \<and> dat i = d) is"

text \<open>
  The rotary channel as the table algorithm uses it: the mode, the bit pair of the
  last poll, the last nibble of the history.
\<close>

definition tableChannel :: "RotaryEncoder \<Rightarrow> bool \<times> bool \<times> bool \<times> u16" where
  "tableChannel s =
     (debouncingRotEncByTable s, bit (newTransition s) 1, bit (newTransition s) 0,
      transitions s AND 0xf)"

text \<open>
  The states a poll of the cleaning algorithm leaves behind when it sampled the clock
  level \<open>c\<close> and the data level \<open>d\<close>.
\<close>

definition settled :: "RotaryEncoder \<Rightarrow> bool \<Rightarrow> bool \<Rightarrow> bool" where
  "settled s c d =
     (clkState s = digitalRead c \<and> prevClkState s = digitalRead c \<and>
      dataState s = digitalRead d \<and> prevDataState s = digitalRead d \<and>
      prevCleanedClkState s = cleanedClkState s \<and>
      prevCleanedDataState s = cleanedDataState s)"

section \<open>Basic facts\<close>

text \<open>The definitions a concrete run is evaluated with.\<close>

lemmas eval_defs = loop_def debounceButton_def nothingToDo_def debounceRotaryByTable_def
  debounceRotaryByCleaning_def composeTransition_def validTransitions_def Let_def sample_def
  ctrlKnob_def knob2_def RotaryEncoder2_def RotaryEncoder3_def memberInit_def zeroMem_def
  digitalRead_def HIGH_def LOW_def invoke_def setDebouncingRotEncByTable_def
  cleanClock_def cleanData_def rotationCallbacks_def

lemma HIGH_LOW [simp]: "HIGH \<noteq> LOW" "LOW \<noteq> HIGH"
  by (simp_all add: HIGH_def LOW_def)

lemma digitalRead_simps [simp]:
  "(digitalRead b = HIGH) = b"
  "(digitalRead b = LOW) = (\<not> b)"
  "(HIGH = digitalRead b) = b"
  "(LOW = digitalRead b) = (\<not> b)"
  "(digitalRead b = digitalRead c) = (b = c)"
  "(digitalRead b \<noteq> 0) = b"
  by (auto simp: digitalRead_def HIGH_def LOW_def)

text \<open>A call through a slot changes the mode at most.\<close>

lemma runHandler_eq:
  "runHandler h s = s\<lparr>debouncingRotEncByTable := nextMode h (debouncingRotEncByTable s)\<rparr>"
  by (cases h) (simp_all add: setDebouncingRotEncByTable_def)

lemma invoke_eq:
  "invoke c s =
     (s\<lparr>debouncingRotEncByTable := nextMode (handlerOf s c) (debouncingRotEncByTable s)\<rparr>,
      [Call c])"
  by (simp add: invoke_def runHandler_eq)

lemma writes_append: "writes (xs @ ys) = writes xs @ writes ys"
  by (induction xs rule: writes.induct) simp_all

lemma callbacks_append: "callbacks (xs @ ys) = callbacks xs @ callbacks ys"
  by (induction xs rule: callbacks.induct) simp_all

lemma rotaryCallbacks_append:
  "rotaryCallbacks (xs @ ys) = rotaryCallbacks xs @ rotaryCallbacks ys"
  by (simp add: rotaryCallbacks_def callbacks_append)

lemma buttonCallbacks_append:
  "buttonCallbacks (xs @ ys) = buttonCallbacks xs @ buttonCallbacks ys"
  by (simp add: buttonCallbacks_def callbacks_append)

text \<open>The poll and the main loop, component by component.\<close>

lemma loop_fst:
  "fst (loop s i) =
     (if debouncingRotEncByTable (fst (debounceButton s i))
      then fst (debounceRotaryByTable (fst (debounceButton s i)) i)
      else fst (debounceRotaryByCleaning (fst (debounceButton s i)) i))"
  by (simp add: loop_def case_prod_beta)

lemma loop_snd:
  "snd (loop s i) = snd (debounceButton s i) @
     (if debouncingRotEncByTable (fst (debounceButton s i))
      then snd (debounceRotaryByTable (fst (debounceButton s i)) i)
      else snd (debounceRotaryByCleaning (fst (debounceButton s i)) i))"
  by (simp add: loop_def case_prod_beta)

lemma run_fst_Cons: "fst (run s (i # is)) = fst (run (fst (loop s i)) is)"
  by (simp add: case_prod_beta)

lemma run_snd_Cons: "snd (run s (i # is)) = snd (loop s i) @ snd (run (fst (loop s i)) is)"
  by (simp add: case_prod_beta)

lemma run_fst_append: "fst (run s (xs @ ys)) = fst (run (fst (run s xs)) ys)"
  by (induction xs arbitrary: s) (simp_all add: case_prod_beta)

lemma run_snd_append:
  "snd (run s (xs @ ys)) = snd (run s xs) @ snd (run (fst (run s xs)) ys)"
  by (induction xs arbitrary: s) (simp_all add: case_prod_beta)

section \<open>Pin writes\<close>

lemma nothingToDo_writes: "writes (snd (nothingToDo s i)) = []"
  by (simp add: nothingToDo_def Let_def invoke_eq)

lemma debounceButton_writes: "writes (snd (debounceButton s i)) = []"
  by (simp add: debounceButton_def Let_def case_prod_beta writes_append nothingToDo_writes
      invoke_eq)

lemma nothingToDo_shadow:
  "prevClkState (fst (nothingToDo s i)) = prevClkState s"
  "prevDataState (fst (nothingToDo s i)) = prevDataState s"
  by (simp_all add: nothingToDo_def Let_def invoke_eq)

lemma debounceButton_shadow:
  "prevClkState (fst (debounceButton s i)) = prevClkState s"
  "prevDataState (fst (debounceButton s i)) = prevDataState s"
  by (simp_all add: debounceButton_def Let_def case_prod_beta nothingToDo_shadow invoke_eq)

lemma table_writes: "writes (snd (debounceRotaryByTable s i)) = []"
  by (simp add: debounceRotaryByTable_def Let_def invoke_eq)

text \<open>The three parts of the cleaning routine in closed form.\<close>

lemma cleanClock_eq:
  "cleanClock s =
     (s\<lparr>prevClkState := clkState s,
        cleanedClkState :=
          (if prevClkState s \<noteq> clkState s then dataState s else cleanedClkState s)\<rparr>,
      if prevClkState s \<noteq> clkState s then [DigitalWrite GPIO_NUM_2 (dataState s)] else [])"
proof (cases "prevClkState s = clkState s")
  case True
  have "s\<lparr>prevClkState := prevClkState s, cleanedClkState := cleanedClkState s\<rparr> = s"
    by simp
  with True show ?thesis
    by (simp add: cleanClock_def)
next
  case False
  then show ?thesis
    by (simp add: cleanClock_def Let_def)
qed

lemma cleanData_eq:
  "cleanData s =
     (s\<lparr>prevDataState := dataState s,
        cleanedDataState :=
          (if prevDataState s \<noteq> dataState s then clkState s else cleanedDataState s)\<rparr>,
      if prevDataState s \<noteq> dataState s then [DigitalWrite GPIO_NUM_4 (clkState s)] else [])"
proof (cases "prevDataState s = dataState s")
  case True
  have "s\<lparr>prevDataState := prevDataState s, cleanedDataState := cleanedDataState s\<rparr> = s"
    by simp
  with True show ?thesis
    by (simp add: cleanData_def)
next
  case False
  then show ?thesis
    by (simp add: cleanData_def Let_def)
qed

lemma rotationCallbacks_snd:
  "snd (rotationCallbacks s) =
     (if prevCleanedClkState s = LOW \<and> cleanedClkState s = HIGH \<and> cleanedDataState s = LOW
      then [Call OnCW] else []) @
     (if prevCleanedDataState s = LOW \<and> cleanedDataState s = HIGH \<and> cleanedClkState s = LOW
      then [Call OnCCW] else [])"
  by (simp add: rotationCallbacks_def Let_def invoke_eq case_prod_beta)

lemma rotationCallbacks_fst:
  "fst (rotationCallbacks s) = s\<lparr>debouncingRotEncByTable := rotationMode s\<rparr>"
proof -
  have "s\<lparr>debouncingRotEncByTable := debouncingRotEncByTable s\<rparr> = s"
    by simp
  then show ?thesis
    by (simp add: rotationMode_def rotationCallbacks_def Let_def invoke_eq case_prod_beta)
qed

lemma cleaning_snd:
  "snd (debounceRotaryByCleaning s i) =
     [DigitalRead (pinClk s), DigitalRead (pinData s)] @
     snd (cleanClock (s\<lparr>clkState := digitalRead (clk i), dataState := digitalRead (dat i)\<rparr>)) @
     snd (cleanData (fst (cleanClock
       (s\<lparr>clkState := digitalRead (clk i), dataState := digitalRead (dat i)\<rparr>)))) @
     snd (rotationCallbacks (fst (cleanData (fst (cleanClock
       (s\<lparr>clkState := digitalRead (clk i), dataState := digitalRead (dat i)\<rparr>))))))"
  by (simp add: debounceRotaryByCleaning_def Let_def case_prod_beta)

lemma cleaning_fst:
  "fst (debounceRotaryByCleaning s i) =
     (fst (rotationCallbacks (fst (cleanData (fst (cleanClock
       (s\<lparr>clkState := digitalRead (clk i), dataState := digitalRead (dat i)\<rparr>)))))))
     \<lparr>prevCleanedClkState := cleanedClkState (fst (cleanData (fst (cleanClock
        (s\<lparr>clkState := digitalRead (clk i), dataState := digitalRead (dat i)\<rparr>))))),
      prevCleanedDataState := cleanedDataState (fst (cleanData (fst (cleanClock
        (s\<lparr>clkState := digitalRead (clk i), dataState := digitalRead (dat i)\<rparr>)))))\<rparr>"
  by (simp add: debounceRotaryByCleaning_def Let_def case_prod_beta rotationCallbacks_fst)

lemma cleaning_writes:
  "writes (snd (debounceRotaryByCleaning s i)) =
     (if prevClkState s \<noteq> digitalRead (clk i)
      then [DigitalWrite GPIO_NUM_2 (digitalRead (dat i))] else []) @
     (if prevDataState s \<noteq> digitalRead (dat i)
      then [DigitalWrite GPIO_NUM_4 (digitalRead (clk i))] else [])"
  by (simp add: cleaning_snd cleanClock_eq cleanData_eq rotationCallbacks_snd writes_append)

text \<open>A poll configures no pin.\<close>

lemma debounceButton_no_pinMode: "PinModeInputPullup p \<notin> set (snd (debounceButton s i))"
  by (simp add: debounceButton_def nothingToDo_def Let_def invoke_eq)

lemma table_no_pinMode: "PinModeInputPullup p \<notin> set (snd (debounceRotaryByTable s i))"
  by (simp add: debounceRotaryByTable_def Let_def invoke_eq)

lemma cleaning_no_pinMode: "PinModeInputPullup p \<notin> set (snd (debounceRotaryByCleaning s i))"
  by (simp add: cleaning_snd cleanClock_eq cleanData_eq rotationCallbacks_snd)

text \<open>
  The members \<^verbatim>\<open>_prevClkState\<close> and \<^verbatim>\<open>_prevDataState\<close>: the table pass leaves them
  alone, the cleaning pass stores the raw levels it sampled.
\<close>

lemma table_shadow:
  "prevClkState (fst (debounceRotaryByTable s i)) = prevClkState s"
  "prevDataState (fst (debounceRotaryByTable s i)) = prevDataState s"
  by (simp_all add: debounceRotaryByTable_def Let_def invoke_eq case_prod_beta)

lemma cleaning_shadow:
  "prevClkState (fst (debounceRotaryByCleaning s i)) = digitalRead (clk i)"
  "prevDataState (fst (debounceRotaryByCleaning s i)) = digitalRead (dat i)"
  by (simp_all add: cleaning_fst rotationCallbacks_fst cleanClock_eq cleanData_eq)

text \<open>
  Claim C7, as the code has it. Which rotary pass a poll runs is decided by the mode
  after its button pass, that is after the handler the button pass may have called.
  A poll whose rotary pass is the table algorithm writes to no pin. A poll whose
  rotary pass is the cleaning algorithm writes the cleaned clock level (the raw data
  level) to GPIO 2 when the raw clock level differs from the member
  \<^verbatim>\<open>_prevClkState\<close>, then the cleaned data level (the raw clock level) to GPIO 4 when
  the raw data level differs from the member \<^verbatim>\<open>_prevDataState\<close>, and nothing else.
  A poll configures no pin, so every other call it makes is a pin read, a clock read
  or a callback. The two members are compared as they stand at the start of the poll;
  a poll with a cleaning pass leaves the raw levels it sampled in them, a poll with a
  table pass leaves them as they were. So they hold the levels of the last poll that
  ran the cleaning pass, not those of the last poll.
\<close>

theorem loop_pin_writes:
  "writes (snd (loop s i)) =
     (if debouncingRotEncByTable (fst (debounceButton s i)) then []
      else (if prevClkState s \<noteq> digitalRead (clk i)
            then [DigitalWrite GPIO_NUM_2 (digitalRead (dat i))] else []) @
           (if prevDataState s \<noteq> digitalRead (dat i)
            then [DigitalWrite GPIO_NUM_4 (digitalRead (clk i))] else [])) \<and>
   (\<forall>p. PinModeInputPullup p \<notin> set (snd (loop s i))) \<and>
   prevClkState (fst (loop s i)) =
     (if debouncingRotEncByTable (fst (debounceButton s i)) then prevClkState s
      else digitalRead (clk i)) \<and>
   prevDataState (fst (loop s i)) =
     (if debouncingRotEncByTable (fst (debounceButton s i)) then prevDataState s
      else digitalRead (dat i))"
  by (simp add: loop_fst loop_snd writes_append debounceButton_writes debounceButton_shadow
      table_writes cleaning_writes debounceButton_no_pinMode table_no_pinMode
      cleaning_no_pinMode table_shadow cleaning_shadow)

text \<open>
  Claim C7 as stated fails: in cleaning mode, the first poll of a freshly built
  encoder with both lines high writes HIGH to GPIO 2.
\<close>

theorem cleaning_poll_writes_gpio:
  "DigitalWrite GPIO_NUM_2 HIGH
     \<in> set (snd (loop (setDebouncingRotEncByTable ctrlKnob False) (sample 0 True True True)))"
  by (simp add: eval_defs)

text \<open>
  With the long-click handler of the test program registered, a poll that is entered
  in table mode and sees the release of a long press runs the cleaning pass, and
  writes both pins. In that poll the raw levels are those of the poll before; the
  two members still hold what they held after construction.
\<close>

lemma long_click_handler_poll_writes:
  "debouncingRotEncByTable
     (fst (run (addOnLongClickCB ctrlKnob (SetsByTable False)) [sample 0 False True True])) \<and>
   writes (snd (loop
     (fst (run (addOnLongClickCB ctrlKnob (SetsByTable False)) [sample 0 False True True]))
     (sample 400 True True True))) =
   [DigitalWrite GPIO_NUM_2 HIGH, DigitalWrite GPIO_NUM_4 HIGH]"
  by (simp add: eval_defs addOnLongClickCB_def GPIO_NUM_2_def GPIO_NUM_4_def)

section \<open>The cleaning algorithm\<close>

text \<open>
  Claim C8, as the code has it: a poll of the cleaning algorithm calls the clockwise
  callback at most once and the counter-clockwise callback at most once, and never
  both: it makes no rotary callback, or exactly one.
\<close>

theorem cleaning_at_most_one_event:
  "callbacks (snd (debounceRotaryByCleaning s i)) = [] \<or>
   callbacks (snd (debounceRotaryByCleaning s i)) = [OnCW] \<or>
   callbacks (snd (debounceRotaryByCleaning s i)) = [OnCCW]"
  by (simp add: cleaning_snd cleanClock_eq cleanData_eq rotationCallbacks_snd callbacks_append)

text \<open>
  Claim C8 as stated fails: no state and no input make both callbacks fire in one
  poll, since the clockwise one needs the cleaned clock HIGH and the other needs it LOW.
\<close>

theorem cleaning_never_both:
  "\<not> (\<exists>s i. Call OnCW \<in> set (snd (debounceRotaryByCleaning s i)) \<and>
            Call OnCCW \<in> set (snd (debounceRotaryByCleaning s i)))"
  by (simp add: cleaning_snd cleanClock_eq cleanData_eq rotationCallbacks_snd)

section \<open>The table of valid transitions\<close>

text \<open>
  Claim C4, as the code has it: with the index made of the previous clock and data
  bits \<open>a\<close>, \<open>b\<close> and the current ones \<open>c\<close>, \<open>d\<close>, the entry is 1 exactly when one
  of the two bits changed and the other did not. Both-bits flips and repeats are 0.
\<close>

theorem validTransitions_single_bit_change:
  "validTransitions ! (8 * of_bool a + 4 * of_bool b + 2 * of_bool c + of_bool d) =
     (if (a = c) \<noteq> (b = d) then 1 else 0)"
  by (cases a; cases b; cases c; cases d; simp add: validTransitions_def)

text \<open>
  Claim C4 as stated fails: the four repeats, indices 0b0000, 0b0101, 0b1010 and
  0b1111, have the value 0.
\<close>

theorem validTransitions_repeats_invalid:
  "validTransitions ! 0 = 0 \<and> validTransitions ! 5 = 0 \<and>
   validTransitions ! 10 = 0 \<and> validTransitions ! 15 = 0"
  by (simp add: validTransitions_def)

text \<open>
  Claim C5, as the code has it: a poll of the table algorithm whose index is invalid
  stores the index in \<^verbatim>\<open>_newTransition\<close>, changes no other member (the history
  \<^verbatim>\<open>_transitions\<close> among them) and makes no callback: its only calls are the two
  pin reads.
\<close>

theorem table_invalid_frame:
  "validTransitions ! unat (composeTransition (newTransition s) (clk i) (dat i)) = 0 \<Longrightarrow>
   debounceRotaryByTable s i =
     (s\<lparr>newTransition := composeTransition (newTransition s) (clk i) (dat i)\<rparr>,
      [DigitalRead (pinClk s), DigitalRead (pinData s)])"
  by (simp add: debounceRotaryByTable_def Let_def)

theorem table_invalid_frame_witness:
  "validTransitions !
     unat (composeTransition (newTransition ctrlKnob) (clk (sample 0 True True True))
       (dat (sample 0 True True True))) = 0 \<and>
   debounceRotaryByTable ctrlKnob (sample 0 True True True) =
     (ctrlKnob\<lparr>newTransition := 3\<rparr>, [DigitalRead 27, DigitalRead 26])"
proof -
  have idx: "composeTransition (newTransition ctrlKnob) (clk (sample 0 True True True))
      (dat (sample 0 True True True)) = 3"
    by (simp add: composeTransition_def ctrlKnob_def RotaryEncoder3_def memberInit_def
        sample_def Let_def)
  have inv: "validTransitions ! unat (composeTransition (newTransition ctrlKnob)
      (clk (sample 0 True True True)) (dat (sample 0 True True True))) = 0"
    unfolding idx by (simp add: validTransitions_def)
  have pins: "pinClk ctrlKnob = 27" "pinData ctrlKnob = 26"
    by (simp_all add: ctrlKnob_def RotaryEncoder3_def memberInit_def)
  from table_invalid_frame [OF inv] inv show ?thesis
    by (simp add: idx pins)
qed

text \<open>
  Claim C5 as stated fails: on a freshly built encoder a poll that reads both lines
  high has the invalid index 0b0011, and changes \<^verbatim>\<open>_newTransition\<close> from 0 to 3.
\<close>

theorem table_invalid_updates_newTransition:
  "validTransitions !
     unat (composeTransition (newTransition ctrlKnob) True True) = 0 \<and>
   newTransition ctrlKnob = 0 \<and>
   newTransition (fst (debounceRotaryByTable ctrlKnob (sample 0 True True True))) = 3"
  by (simp add: debounceRotaryByTable_def composeTransition_def ctrlKnob_def
      RotaryEncoder3_def memberInit_def sample_def Let_def validTransitions_def)

section \<open>The pushbutton classifier\<close>

text \<open>The rotary channel leaves the button channel alone.\<close>

lemma table_button:
  "buttonChannel (fst (debounceRotaryByTable s i)) = buttonChannel s"
  "thresholds (fst (debounceRotaryByTable s i)) = thresholds s"
  "pinButton (fst (debounceRotaryByTable s i)) = pinButton s"
  "buttonCallbacks (snd (debounceRotaryByTable s i)) = []"
  by (simp_all add: debounceRotaryByTable_def Let_def buttonChannel_def thresholds_def
      buttonCallbacks_def invoke_eq case_prod_beta)

lemma cleaning_button:
  "buttonChannel (fst (debounceRotaryByCleaning s i)) = buttonChannel s"
  "thresholds (fst (debounceRotaryByCleaning s i)) = thresholds s"
  "pinButton (fst (debounceRotaryByCleaning s i)) = pinButton s"
  "buttonCallbacks (snd (debounceRotaryByCleaning s i)) = []"
  by (simp_all add: cleaning_fst cleaning_snd cleanClock_eq cleanData_eq rotationCallbacks_fst
      rotationCallbacks_snd buttonChannel_def thresholds_def buttonCallbacks_def
      callbacks_append)

lemma loop_button:
  "buttonChannel (fst (loop s i)) = buttonChannel (fst (debounceButton s i))"
  "thresholds (fst (loop s i)) = thresholds (fst (debounceButton s i))"
  "pinButton (fst (loop s i)) = pinButton (fst (debounceButton s i))"
  "buttonCallbacks (snd (loop s i)) = buttonCallbacks (snd (debounceButton s i))"
  by (simp_all add: loop_fst loop_snd buttonCallbacks_append table_button cleaning_button)

text \<open>The three branches of \<^verbatim>\<open>_debounceButton\<close>.\<close>

lemma debounceButton_press:
  "buttonState s = HIGH \<Longrightarrow> \<not> btn i \<Longrightarrow>
   debounceButton s i =
     (s\<lparr>prevButtonState := HIGH, buttonState := LOW, msButtonDown := ms1 i\<rparr>,
      [DigitalRead (pinButton s), Millis])"
  by (simp add: debounceButton_def Let_def)

lemma debounceButton_release:
  "buttonState s = LOW \<Longrightarrow> btn i \<Longrightarrow>
   debounceButton s i =
     (if ms1 i - msButtonDown s < msDebounce s
      then (s\<lparr>prevButtonState := LOW, buttonState := HIGH\<rparr>,
            [DigitalRead (pinButton s), Millis])
      else if ms2 i - msButtonDown s > msLongClick s
      then (runHandler (onLongClick s) (s\<lparr>prevButtonState := LOW, buttonState := HIGH\<rparr>),
            [DigitalRead (pinButton s), Millis, Millis, Call OnLongClick])
      else if clickCount s + 1 = 1
      then (s\<lparr>prevButtonState := LOW, buttonState := HIGH, clickCount := clickCount s + 1,
               msFirstClick := ms3 i\<rparr>,
            [DigitalRead (pinButton s), Millis, Millis, Millis])
      else (s\<lparr>prevButtonState := LOW, buttonState := HIGH, clickCount := clickCount s + 1\<rparr>,
            [DigitalRead (pinButton s), Millis, Millis]))"
  by (simp add: debounceButton_def Let_def invoke_def runHandler_eq)

lemma debounceButton_same:
  "buttonState s = digitalRead (btn i) \<Longrightarrow>
   debounceButton s i =
     (fst (nothingToDo (s\<lparr>prevButtonState := buttonState s\<rparr>) i),
      DigitalRead (pinButton s) # snd (nothingToDo (s\<lparr>prevButtonState := buttonState s\<rparr>) i))"
proof -
  assume a: "buttonState s = digitalRead (btn i)"
  have "s\<lparr>prevButtonState := buttonState s, buttonState := buttonState s\<rparr> =
        s\<lparr>prevButtonState := buttonState s\<rparr>"
    by simp
  then have e: "s\<lparr>prevButtonState := buttonState s, buttonState := digitalRead (btn i)\<rparr> =
        s\<lparr>prevButtonState := buttonState s\<rparr>"
    by (simp only: a)
  have n: "(buttonState s = HIGH \<and> buttonState s = LOW) = False"
    "(buttonState s = LOW \<and> buttonState s = HIGH) = False"
    by auto
  show ?thesis
    unfolding debounceButton_def Let_def e by (simp add: case_prod_beta n)
qed

text \<open>Reading the members off the two tuples.\<close>

lemma channelD:
  "buttonChannel s = (a, b, c, d) \<Longrightarrow>
   buttonState s = a \<and> clickCount s = b \<and> msButtonDown s = c \<and> msFirstClick s = d"
  by (simp add: buttonChannel_def)

lemma thresholdsD:
  "thresholds s = (a, b, c) \<Longrightarrow> msDebounce s = a \<and> msLongClick s = b \<and> msDoubleClickGap s = c"
  by (simp add: thresholds_def)

text \<open>
  Claim C10: the last branch of \<^verbatim>\<open>_debounceButton\<close> runs in every poll whose sampled
  level equals the level of the previous poll, pressed or released. So with one click
  pending and the double-click gap expired, the poll clears the accumulator and calls
  the click callback (whose handler runs on the cleared state), also while the button
  is held down.
\<close>

theorem unchanged_level_branch:
  assumes "buttonState s = digitalRead (btn i)"
  shows "debounceButton s i =
     (fst (nothingToDo (s\<lparr>prevButtonState := buttonState s\<rparr>) i),
      DigitalRead (pinButton s) # snd (nothingToDo (s\<lparr>prevButtonState := buttonState s\<rparr>) i)) \<and>
    (clickCount s = 1 \<and> ms1 i - msFirstClick s > msDoubleClickGap s \<longrightarrow>
     debounceButton s i =
       (runHandler (onClick s)
          (s\<lparr>prevButtonState := buttonState s, msFirstClick := 0, clickCount := 0\<rparr>),
        [DigitalRead (pinButton s), Millis, Call OnClick]) \<and>
     clickCount (fst (debounceButton s i)) = 0 \<and>
     msFirstClick (fst (debounceButton s i)) = 0)"
  using assms by (simp add: debounceButton_same nothingToDo_def invoke_def runHandler_eq)

text \<open>
  A click of 100 ms, a second press 100 ms after its release, and a poll 200 ms into
  the hold: the button is down in that poll and in the one before.
\<close>

theorem unchanged_level_branch_witness:
  "buttonState (fst (run ctrlKnob [sample 0 False True True, sample 100 True True True,
       sample 200 False True True])) = digitalRead (btn (sample 400 False True True)) \<and>
   buttonState (fst (run ctrlKnob [sample 0 False True True, sample 100 True True True,
       sample 200 False True True])) = LOW \<and>
   clickCount (fst (run ctrlKnob [sample 0 False True True, sample 100 True True True,
       sample 200 False True True])) = 1 \<and>
   callbacks (snd (debounceButton (fst (run ctrlKnob [sample 0 False True True,
       sample 100 True True True, sample 200 False True True]))
       (sample 400 False True True))) = [OnClick] \<and>
   clickCount (fst (debounceButton (fst (run ctrlKnob [sample 0 False True True,
       sample 100 True True True, sample 200 False True True]))
       (sample 400 False True True))) = 0"
proof -
  let ?s = "fst (run ctrlKnob [sample 0 False True True, sample 100 True True True,
       sample 200 False True True])"
  let ?i = "sample 400 False True True"
  have ch: "buttonChannel ?s = (LOW, 1, 200, 100)" and th: "thresholds ?s = (50, 300, 250)"
    by (simp_all add: eval_defs buttonChannel_def thresholds_def)
  have i: "btn ?i = False" "ms1 ?i = 400"
    by (simp_all add: sample_def)
  have same: "buttonState ?s = digitalRead (btn ?i)"
    using channelD [OF ch] by (simp add: i)
  have late: "clickCount ?s = 1 \<and> ms1 ?i - msFirstClick ?s > msDoubleClickGap ?s"
    using channelD [OF ch] thresholdsD [OF th] by (simp add: i)
  from unchanged_level_branch [OF same] late
  have "debounceButton ?s ?i =
       (runHandler (onClick ?s)
          (?s\<lparr>prevButtonState := buttonState ?s, msFirstClick := 0, clickCount := 0\<rparr>),
        [DigitalRead (pinButton ?s), Millis, Call OnClick]) \<and>
     clickCount (fst (debounceButton ?s ?i)) = 0"
    by blast
  then have e: "debounceButton ?s ?i =
       (runHandler (onClick ?s)
          (?s\<lparr>prevButtonState := buttonState ?s, msFirstClick := 0, clickCount := 0\<rparr>),
        [DigitalRead (pinButton ?s), Millis, Call OnClick])"
    and z: "clickCount (fst (debounceButton ?s ?i)) = 0"
    by blast+
  have d: "snd (debounceButton ?s ?i) = [DigitalRead (pinButton ?s), Millis, Call OnClick]"
    by (subst e) (rule snd_conv)
  have cb: "callbacks (snd (debounceButton ?s ?i)) = [OnClick]"
    unfolding d by simp
  from same channelD [OF ch] cb z show ?thesis
    by blast
qed

text \<open>
  Claim C2, as the code has it: on a release whose press lasted at least the debounce
  window and more than the long-click threshold, the classifier calls the long-click
  callback and nothing else, and leaves the click accumulator as it was: the only
  members it writes are the previous and the current button level, before the
  handler runs.
\<close>

theorem long_click_release:
  assumes "buttonState s = LOW" "btn i"
    "\<not> ms1 i - msButtonDown s < msDebounce s" "ms2 i - msButtonDown s > msLongClick s"
  shows "debounceButton s i =
     (runHandler (onLongClick s) (s\<lparr>prevButtonState := LOW, buttonState := HIGH\<rparr>),
      [DigitalRead (pinButton s), Millis, Millis, Call OnLongClick]) \<and>
     clickCount (fst (debounceButton s i)) = clickCount s \<and>
     msFirstClick (fst (debounceButton s i)) = msFirstClick s"
  using assms by (simp add: debounceButton_release runHandler_eq)

text \<open>A press of 400 ms on a freshly built encoder.\<close>

theorem long_click_release_witness:
  "buttonState (fst (run ctrlKnob [sample 1000 False True True])) = LOW \<and>
   btn (sample 1400 True True True) \<and>
   \<not> ms1 (sample 1400 True True True)
       - msButtonDown (fst (run ctrlKnob [sample 1000 False True True]))
     < msDebounce (fst (run ctrlKnob [sample 1000 False True True])) \<and>
   ms2 (sample 1400 True True True)
       - msButtonDown (fst (run ctrlKnob [sample 1000 False True True]))
     > msLongClick (fst (run ctrlKnob [sample 1000 False True True])) \<and>
   callbacks (snd (debounceButton (fst (run ctrlKnob [sample 1000 False True True]))
     (sample 1400 True True True))) = [OnLongClick]"
proof -
  let ?s = "fst (run ctrlKnob [sample 1000 False True True])"
  let ?i = "sample 1400 True True True"
  have ch: "buttonChannel ?s = (LOW, 0, 1000, 0)" and th: "thresholds ?s = (50, 300, 250)"
    by (simp_all add: eval_defs buttonChannel_def thresholds_def)
  have i: "btn ?i" "ms1 ?i = 1400" "ms2 ?i = 1400"
    by (simp_all add: sample_def)
  have h1: "buttonState ?s = LOW"
    using channelD [OF ch] by simp
  have h3: "\<not> ms1 ?i - msButtonDown ?s < msDebounce ?s"
    using channelD [OF ch] thresholdsD [OF th] by (simp add: i)
  have h4: "ms2 ?i - msButtonDown ?s > msLongClick ?s"
    using channelD [OF ch] thresholdsD [OF th] by (simp add: i)
  from long_click_release [OF h1 i(1) h3 h4] h1 i(1) h3 h4 show ?thesis
    by simp
qed

text \<open>
  Claim C2 as stated fails: a click of 100 ms, then a press 100 ms later that is
  released after 400 ms with no poll in between. The release poll calls the long-click
  callback, and the pending click and its time stamp are still there after it.
\<close>

theorem long_click_keeps_accumulator:
  "clickCount (fst (run ctrlKnob [sample 900 False True True, sample 1000 True True True,
       sample 1100 False True True])) = 1 \<and>
   msFirstClick (fst (run ctrlKnob [sample 900 False True True, sample 1000 True True True,
       sample 1100 False True True])) = 1000 \<and>
   callbacks (snd (debounceButton (fst (run ctrlKnob [sample 900 False True True,
       sample 1000 True True True, sample 1100 False True True]))
       (sample 1500 True True True))) = [OnLongClick] \<and>
   clickCount (fst (debounceButton (fst (run ctrlKnob [sample 900 False True True,
       sample 1000 True True True, sample 1100 False True True]))
       (sample 1500 True True True))) = 1 \<and>
   msFirstClick (fst (debounceButton (fst (run ctrlKnob [sample 900 False True True,
       sample 1000 True True True, sample 1100 False True True]))
       (sample 1500 True True True))) = 1000"
  by (simp add: eval_defs)

text \<open>Polls that see no edge and have no click to deliver change nothing in the channel.\<close>

lemma debounceButton_quiet:
  assumes "buttonState s = digitalRead (btn i)"
    "clickCount s = 0 \<or> (clickCount s = 1 \<and> \<not> msDoubleClickGap s < ms1 i - msFirstClick s)"
  shows "buttonChannel (fst (debounceButton s i)) = buttonChannel s \<and>
         thresholds (fst (debounceButton s i)) = thresholds s \<and>
         buttonCallbacks (snd (debounceButton s i)) = []"
  using assms
  by (auto simp add: debounceButton_same nothingToDo_def buttonChannel_def
      thresholds_def buttonCallbacks_def invoke_eq)

lemma loop_quiet:
  assumes "buttonState s = digitalRead (btn i)"
    "clickCount s = 0 \<or> (clickCount s = 1 \<and> \<not> msDoubleClickGap s < ms1 i - msFirstClick s)"
  shows "buttonChannel (fst (loop s i)) = buttonChannel s \<and>
         thresholds (fst (loop s i)) = thresholds s \<and>
         buttonCallbacks (snd (loop s i)) = []"
  unfolding loop_button using assms by (rule debounceButton_quiet)

lemma run_quiet:
  assumes "buttonState s = digitalRead b" "\<forall>i\<in>set is. btn i = b"
    "clickCount s = 0 \<or>
     (clickCount s = 1 \<and> (\<forall>i\<in>set is. \<not> msDoubleClickGap s < ms1 i - msFirstClick s))"
  shows "buttonChannel (fst (run s is)) = buttonChannel s \<and>
         thresholds (fst (run s is)) = thresholds s \<and>
         buttonCallbacks (snd (run s is)) = []"
  using assms
proof (induction "is" arbitrary: s)
  case Nil
  then show ?case by (simp add: buttonCallbacks_def)
next
  case (Cons i "is")
  have q: "buttonChannel (fst (loop s i)) = buttonChannel s \<and>
         thresholds (fst (loop s i)) = thresholds s \<and>
         buttonCallbacks (snd (loop s i)) = []"
    using Cons.prems by (intro loop_quiet) auto
  then have eqs: "buttonState (fst (loop s i)) = buttonState s"
    "clickCount (fst (loop s i)) = clickCount s"
    "msFirstClick (fst (loop s i)) = msFirstClick s"
    "msDoubleClickGap (fst (loop s i)) = msDoubleClickGap s"
    by (simp_all add: buttonChannel_def thresholds_def)
  have "buttonChannel (fst (run (fst (loop s i)) is)) = buttonChannel (fst (loop s i)) \<and>
         thresholds (fst (run (fst (loop s i)) is)) = thresholds (fst (loop s i)) \<and>
         buttonCallbacks (snd (run (fst (loop s i)) is)) = []"
    using Cons.prems by (intro Cons.IH) (auto simp: eqs)
  with q show ?case
    by (simp add: run_fst_Cons run_snd_Cons buttonCallbacks_append del: run.simps)
qed

lemma press_loop:
  assumes "buttonState s = HIGH" "\<not> btn i"
  shows "buttonChannel (fst (loop s i)) = (LOW, clickCount s, ms1 i, msFirstClick s) \<and>
         thresholds (fst (loop s i)) = thresholds s \<and>
         buttonCallbacks (snd (loop s i)) = []"
  unfolding loop_button using assms
  by (simp add: debounceButton_press buttonChannel_def thresholds_def buttonCallbacks_def)

lemma release_click_loop:
  assumes "buttonState s = LOW" "btn i"
    "\<not> ms1 i - msButtonDown s < msDebounce s" "\<not> msLongClick s < ms2 i - msButtonDown s"
  shows "buttonChannel (fst (loop s i)) =
           (HIGH, clickCount s + 1, msButtonDown s,
            if clickCount s + 1 = 1 then ms3 i else msFirstClick s) \<and>
         thresholds (fst (loop s i)) = thresholds s \<and>
         buttonCallbacks (snd (loop s i)) = []"
  unfolding loop_button using assms
  by (simp add: debounceButton_release buttonChannel_def thresholds_def buttonCallbacks_def)

lemma double_click_loop:
  assumes "buttonState s = HIGH" "btn i" "1 < clickCount s"
  shows "buttonChannel (fst (loop s i)) = (HIGH, 0, msButtonDown s, 0) \<and>
         thresholds (fst (loop s i)) = thresholds s \<and>
         buttonCallbacks (snd (loop s i)) = [OnDoubleClick]"
  unfolding loop_button using assms
  by (auto simp add: debounceButton_same nothingToDo_def buttonChannel_def thresholds_def
      buttonCallbacks_def invoke_eq)

lemma construct3_button:
  "buttonChannel (fst (RotaryEncoder3 mem pc pd pb)) = (HIGH, 0, msButtonDown mem, 0)"
  "thresholds (fst (RotaryEncoder3 mem pc pd pb)) = (50, 300, 250)"
  by (simp_all add: RotaryEncoder3_def memberInit_def buttonChannel_def thresholds_def)

text \<open>
  Claim C6, as the code has it. The polls are: any number with the button up, the
  first press \<open>p1\<close> and the polls of its hold, the first release \<open>r1\<close> and the polls of
  the gap, the second press \<open>p2\<close> and the polls of its hold, the second release \<open>r2\<close>,
  one more poll \<open>q\<close> and any number after it with the button up. Each press lasts
  100 ms as the release poll measures it. When every poll between the two releases is
  taken at most 250 ms after the first release, the button callbacks of the whole run
  are exactly one double click.
\<close>

theorem double_click_within_gap:
  fixes mem :: RotaryEncoder
  assumes idle0: "\<forall>i\<in>set idle0. btn i"
    and p1: "\<not> btn p1"
    and hold1: "\<forall>i\<in>set hold1. \<not> btn i"
    and r1: "btn r1" "ms1 r1 - ms1 p1 = 100" "ms2 r1 - ms1 p1 = 100"
    and gap: "\<forall>i\<in>set gap. btn i \<and> ms1 i - ms3 r1 \<le> 250"
    and p2: "\<not> btn p2"
    and hold2: "\<forall>i\<in>set hold2. \<not> btn i \<and> ms1 i - ms3 r1 \<le> 250"
    and r2: "btn r2" "ms1 r2 - ms1 p2 = 100" "ms2 r2 - ms1 p2 = 100"
    and q: "btn q"
    and rest: "\<forall>i\<in>set rest. btn i"
  shows "buttonCallbacks (snd (run (fst (RotaryEncoder3 mem pc pd pb))
           (idle0 @ p1 # hold1 @ r1 # gap @ p2 # hold2 @ r2 # q # rest))) = [OnDoubleClick]"
proof -
  let ?s0 = "fst (RotaryEncoder3 mem pc pd pb)"
  let ?sA = "fst (run ?s0 idle0)"
  let ?sB = "fst (loop ?sA p1)"
  let ?sC = "fst (run ?sB hold1)"
  let ?sD = "fst (loop ?sC r1)"
  let ?sE = "fst (run ?sD gap)"
  let ?sF = "fst (loop ?sE p2)"
  let ?sG = "fst (run ?sF hold2)"
  let ?sH = "fst (loop ?sG r2)"
  let ?sI = "fst (loop ?sH q)"
  note c0 = construct3_button [of mem pc pd pb]
  have A: "buttonChannel ?sA = (HIGH, 0, msButtonDown mem, 0) \<and>
      thresholds ?sA = (50, 300, 250) \<and> buttonCallbacks (snd (run ?s0 idle0)) = []"
    using run_quiet [of ?s0 True idle0] idle0 c0 channelD [OF c0(1)] by simp
  have B: "buttonChannel ?sB = (LOW, 0, ms1 p1, 0) \<and>
      thresholds ?sB = (50, 300, 250) \<and> buttonCallbacks (snd (loop ?sA p1)) = []"
    using press_loop [of ?sA p1] p1 A channelD [of ?sA] by simp
  have C: "buttonChannel ?sC = (LOW, 0, ms1 p1, 0) \<and>
      thresholds ?sC = (50, 300, 250) \<and> buttonCallbacks (snd (run ?sB hold1)) = []"
    using run_quiet [of ?sB False hold1] hold1 B channelD [of ?sB] by simp
  have D: "buttonChannel ?sD = (HIGH, 1, ms1 p1, ms3 r1) \<and>
      thresholds ?sD = (50, 300, 250) \<and> buttonCallbacks (snd (loop ?sC r1)) = []"
    using release_click_loop [of ?sC r1] r1 C channelD [of ?sC] thresholdsD [of ?sC] by simp
  have E: "buttonChannel ?sE = (HIGH, 1, ms1 p1, ms3 r1) \<and>
      thresholds ?sE = (50, 300, 250) \<and> buttonCallbacks (snd (run ?sD gap)) = []"
    using run_quiet [of ?sD True gap] gap D channelD [of ?sD] thresholdsD [of ?sD]
    by (simp add: not_less)
  have F: "buttonChannel ?sF = (LOW, 1, ms1 p2, ms3 r1) \<and>
      thresholds ?sF = (50, 300, 250) \<and> buttonCallbacks (snd (loop ?sE p2)) = []"
    using press_loop [of ?sE p2] p2 E channelD [of ?sE] by simp
  have G: "buttonChannel ?sG = (LOW, 1, ms1 p2, ms3 r1) \<and>
      thresholds ?sG = (50, 300, 250) \<and> buttonCallbacks (snd (run ?sF hold2)) = []"
    using run_quiet [of ?sF False hold2] hold2 F channelD [of ?sF] thresholdsD [of ?sF]
    by (simp add: not_less)
  have H: "buttonChannel ?sH = (HIGH, 2, ms1 p2, ms3 r1) \<and>
      thresholds ?sH = (50, 300, 250) \<and> buttonCallbacks (snd (loop ?sG r2)) = []"
    using release_click_loop [of ?sG r2] r2 G channelD [of ?sG] thresholdsD [of ?sG] by simp
  have I: "buttonChannel ?sI = (HIGH, 0, ms1 p2, 0) \<and>
      thresholds ?sI = (50, 300, 250) \<and> buttonCallbacks (snd (loop ?sH q)) = [OnDoubleClick]"
    using double_click_loop [of ?sH q] q H channelD [of ?sH] by simp
  have J: "buttonCallbacks (snd (run ?sI rest)) = []"
    using run_quiet [of ?sI True rest] rest I channelD [of ?sI] by simp
  show ?thesis
    using A B C D E F G H I J
    by (simp add: run_snd_append run_snd_Cons run_fst_append run_fst_Cons
        buttonCallbacks_append del: run.simps)
qed

text \<open>Two presses of 100 ms, 100 ms apart, polled every 50 ms.\<close>

theorem double_click_within_gap_witness:
  "btn (sample 950 True True True) \<and>
   \<not> btn (sample 1000 False True True) \<and>
   \<not> btn (sample 1050 False True True) \<and>
   btn (sample 1100 True True True) \<and>
   ms1 (sample 1100 True True True) - ms1 (sample 1000 False True True) = 100 \<and>
   btn (sample 1150 True True True) \<and>
   ms1 (sample 1150 True True True) - ms3 (sample 1100 True True True) \<le> 250 \<and>
   \<not> btn (sample 1200 False True True) \<and>
   \<not> btn (sample 1250 False True True) \<and>
   ms1 (sample 1250 False True True) - ms3 (sample 1100 True True True) \<le> 250 \<and>
   btn (sample 1300 True True True) \<and>
   ms1 (sample 1300 True True True) - ms1 (sample 1200 False True True) = 100 \<and>
   btn (sample 1350 True True True) \<and>
   btn (sample 1700 True True True) \<and>
   buttonCallbacks (snd (run ctrlKnob
     ([sample 950 True True True] @ sample 1000 False True True #
      [sample 1050 False True True] @ sample 1100 True True True #
      [sample 1150 True True True] @ sample 1200 False True True #
      [sample 1250 False True True] @ sample 1300 True True True #
      sample 1350 True True True # [sample 1700 True True True]))) = [OnDoubleClick]"
proof -
  have idle0: "\<forall>i\<in>set [sample 950 True True True]. btn i"
    and p1: "\<not> btn (sample 1000 False True True)"
    and hold1: "\<forall>i\<in>set [sample 1050 False True True]. \<not> btn i"
    and r1: "btn (sample 1100 True True True)"
      "ms1 (sample 1100 True True True) - ms1 (sample 1000 False True True) = 100"
      "ms2 (sample 1100 True True True) - ms1 (sample 1000 False True True) = 100"
    and gap: "\<forall>i\<in>set [sample 1150 True True True].
       btn i \<and> ms1 i - ms3 (sample 1100 True True True) \<le> 250"
    and p2: "\<not> btn (sample 1200 False True True)"
    and hold2: "\<forall>i\<in>set [sample 1250 False True True].
       \<not> btn i \<and> ms1 i - ms3 (sample 1100 True True True) \<le> 250"
    and r2: "btn (sample 1300 True True True)"
      "ms1 (sample 1300 True True True) - ms1 (sample 1200 False True True) = 100"
      "ms2 (sample 1300 True True True) - ms1 (sample 1200 False True True) = 100"
    and q: "btn (sample 1350 True True True)"
    and rest: "\<forall>i\<in>set [sample 1700 True True True]. btn i"
    by (simp_all add: sample_def)
  from double_click_within_gap [OF idle0 p1 hold1 r1 gap p2 hold2 r2 q rest,
      of zeroMem 27 26 25]
  have "buttonCallbacks (snd (run ctrlKnob
     ([sample 950 True True True] @ sample 1000 False True True #
      [sample 1050 False True True] @ sample 1100 True True True #
      [sample 1150 True True True] @ sample 1200 False True True #
      [sample 1250 False True True] @ sample 1300 True True True #
      sample 1350 True True True # [sample 1700 True True True]))) = [OnDoubleClick]"
    by (simp only: ctrlKnob_def)
  moreover have "btn (sample 950 True True True)"
    "\<not> btn (sample 1050 False True True)"
    "btn (sample 1150 True True True)"
    "ms1 (sample 1150 True True True) - ms3 (sample 1100 True True True) \<le> 250"
    "\<not> btn (sample 1250 False True True)"
    "ms1 (sample 1250 False True True) - ms3 (sample 1100 True True True) \<le> 250"
    "btn (sample 1700 True True True)"
    by (simp_all add: sample_def)
  ultimately show ?thesis
    using p1 r1 p2 r2 q by blast
qed

text \<open>
  Claim C6 as stated fails: two presses of 100 ms with 200 ms between the first
  release and the second press, polled in every phase. The poll taken 60 ms into the
  second hold is 260 ms after the first release and delivers the first click alone;
  the second release starts a new accumulation that ends in a second click.
\<close>

theorem double_click_gap_200_gives_two_clicks:
  "buttonCallbacks (snd (run ctrlKnob
     [sample 1000 False True True, sample 1050 False True True,
      sample 1100 True True True, sample 1200 True True True,
      sample 1300 False True True, sample 1360 False True True,
      sample 1400 True True True, sample 1401 True True True,
      sample 1700 True True True])) = [OnClick, OnClick]"
  by (simp add: eval_defs buttonCallbacks_def)

section \<open>Construction without a button pin\<close>

lemma debounceButton_pinButton: "pinButton (fst (debounceButton s i)) = pinButton s"
  by (simp add: debounceButton_def nothingToDo_def Let_def case_prod_beta invoke_eq)

lemma loop_pinButton: "pinButton (fst (loop s i)) = pinButton s"
  by (simp add: loop_button debounceButton_pinButton)

lemma run_pinButton: "pinButton (fst (run s is)) = pinButton s"
  by (induction "is" arbitrary: s) (simp_all add: run_fst_Cons loop_pinButton del: run.simps(2))

lemma debounceButton_reads_first:
  "snd (debounceButton s i) = DigitalRead (pinButton s) # tl (snd (debounceButton s i))"
  by (simp add: debounceButton_def Let_def case_prod_beta invoke_eq)

lemma loop_reads_button_first: "hd (snd (loop s i)) = DigitalRead (pinButton s)"
  by (subst loop_snd, subst debounceButton_reads_first) simp

lemma construct2_button:
  "buttonChannel (fst (RotaryEncoder2 mem pc pd)) = (HIGH, 0, msButtonDown mem, 0)"
  "thresholds (fst (RotaryEncoder2 mem pc pd)) = (50, 300, 250)"
  "pinButton (fst (RotaryEncoder2 mem pc pd)) = pinButton mem"
  by (simp_all add: RotaryEncoder2_def memberInit_def buttonChannel_def thresholds_def)

text \<open>
  The two-pin constructor leaves \<^verbatim>\<open>_pinButton\<close> as the storage held it, and
  \<^verbatim>\<open>loop()\<close> runs the button classifier all the same. After any polls \<open>js\<close>, the
  next poll starts by reading the pin that member names. The classifier makes no
  button callback as long as every level it reads there is HIGH.
\<close>

lemma two_pin_poll_reads_unset_pin:
  "hd (snd (loop (fst (run (fst (RotaryEncoder2 mem pc pd)) js)) j)) = DigitalRead (pinButton mem) \<and>
   ((\<forall>i\<in>set is. btn i) \<longrightarrow>
     buttonCallbacks (snd (run (fst (RotaryEncoder2 mem pc pd)) is)) = [])"
proof -
  have "(\<forall>i\<in>set is. btn i) \<Longrightarrow>
     buttonCallbacks (snd (run (fst (RotaryEncoder2 mem pc pd)) is)) = []"
    using run_quiet [of "fst (RotaryEncoder2 mem pc pd)" True "is"]
      channelD [OF construct2_button(1), of mem pc pd]
    by simp
  then show ?thesis
    by (simp add: loop_reads_button_first run_pinButton construct2_button)
qed

text \<open>
  Claim C3 says that an encoder built with the two rotary pins only never reads a
  button level and never makes a button callback. The code does both. Built in
  static storage, the encoder has \<^verbatim>\<open>_pinButton\<close> 0; its first poll starts by reading
  pin 0, and a low level there for 100 ms followed by a high one, with a further poll
  300 ms later, is classified as a click.
\<close>

theorem two_pin_encoder_reads_button_and_clicks:
  "pinButton knob2 = 0 \<and>
   hd (snd (loop knob2 (sample 0 False True True))) = DigitalRead 0 \<and>
   callbacks (snd (run knob2 [sample 0 False True True, sample 100 True True True,
     sample 400 True True True])) = [OnClick]"
  by (simp add: eval_defs)

section \<open>The table algorithm, poll by poll\<close>

text \<open>The transition index, bit by bit.\<close>

lemma fifteen_mask: "(15::u8) = mask 4"
  by (simp add: mask_eq_exp_minus_1)

lemma fifteen16_mask: "(15::u16) = mask 4"
  by (simp add: mask_eq_exp_minus_1)

lemma byte_mask: "(255::u16) = mask 8"
  by (simp add: mask_eq_exp_minus_1)

lemma small_cases: "k = 0 \<or> k = 1 \<or> k = 2 \<or> k = 3 \<or> 4 \<le> (k::nat)"
  by arith

lemma composeTransition_bits:
  "composeTransition n c d =
     push_bit 3 (of_bool (bit n 1)) OR push_bit 2 (of_bool (bit n 0)) OR
     push_bit 1 (of_bool c) OR of_bool d"
proof -
  have c: "composeTransition n c d =
      (push_bit 2 n OR push_bit 1 (of_bool c) OR of_bool d) AND mask 4"
    by (cases c; cases d; simp add: composeTransition_def Let_def fifteen_mask [symmetric] or.assoc)
  show ?thesis
    unfolding c
  proof (rule bit_word_eqI)
    fix k :: nat
    assume "k < LENGTH(8)"
    from small_cases [of k]
    show "bit ((push_bit 2 n OR push_bit 1 (of_bool c) OR of_bool d) AND mask 4) k =
          bit (push_bit 3 (of_bool (bit n 1)) OR push_bit 2 (of_bool (bit n 0)) OR
            push_bit 1 (of_bool c) OR (of_bool d :: u8)) k"
      by (elim disjE) (auto simp: bit_simps)
  qed
qed

lemma composeTransition_low_bits:
  "bit (composeTransition n c d) 0 = d" "bit (composeTransition n c d) 1 = c"
  by (simp_all add: composeTransition_bits bit_simps)

lemma repeat_invalid:
  "validTransitions ! unat (composeTransition (composeTransition n c d) c d) = 0"
proof -
  have "composeTransition (composeTransition n c d) c d =
      push_bit 3 (of_bool c) OR push_bit 2 (of_bool d) OR push_bit 1 (of_bool c) OR of_bool d"
    by (simp only: composeTransition_bits [of "composeTransition n c d"]
        composeTransition_low_bits)
  then show ?thesis
    by (cases c; cases d; simp add: validTransitions_def)
qed

lemma low_byte_push: "(push_bit 4 t OR k) AND 0xff = push_bit 4 (t AND 0xf) OR (k AND (0xff::u16))"
  unfolding fifteen16_mask byte_mask by (rule bit_word_eqI) (auto simp: bit_simps)

lemma low_nibble_push: "(push_bit 4 t OR k) AND 0xf = k AND (0xf::u16)"
  unfolding fifteen16_mask by (rule bit_word_eqI) (auto simp: bit_simps)

lemma composeTransition_index:
  "bit n 1 = c0 \<Longrightarrow> bit n 0 = d0 \<Longrightarrow> composeTransition n c d = transitionIndex c0 d0 c d"
  by (simp only: composeTransition_bits transitionIndex_def)

text \<open>The table is never read out of range.\<close>

lemma transitionIndex_less: "unat (transitionIndex c0 d0 c d) < 16"
  by (cases c0; cases d0; cases c; cases d; simp add: transitionIndex_def)

lemma composeTransition_in_range: "unat (composeTransition n c d) < length validTransitions"
  using transitionIndex_less [of "bit n 1" "bit n 0" c d]
  by (simp only: composeTransition_index [OF refl refl, of n c d])
    (simp add: validTransitions_def)

text \<open>
  With the default handler in every slot a callback leaves the object alone, and no
  poll changes a slot.
\<close>

lemma invoke_inert: "inert s \<Longrightarrow> invoke c s = (s, [Call c])"
  by (cases c) (simp_all add: invoke_def inert_def)

lemma debounceButton_inert: "inert (fst (debounceButton s i)) = inert s"
  by (simp add: debounceButton_def nothingToDo_def Let_def case_prod_beta invoke_eq inert_def)

lemma table_inert: "inert (fst (debounceRotaryByTable s i)) = inert s"
  by (simp add: debounceRotaryByTable_def Let_def case_prod_beta invoke_eq inert_def)

lemma cleaning_inert: "inert (fst (debounceRotaryByCleaning s i)) = inert s"
  by (simp add: cleaning_fst rotationCallbacks_fst cleanClock_eq cleanData_eq inert_def)

lemma loop_inert: "inert (fst (loop s i)) = inert s"
  by (simp add: loop_fst debounceButton_inert table_inert cleaning_inert)

lemma run_inert: "inert (fst (run s is)) = inert s"
  by (induction "is" arbitrary: s) (simp_all add: run_fst_Cons loop_inert del: run.simps(2))

lemma debounceButton_mode_inert:
  "inert s \<Longrightarrow> debouncingRotEncByTable (fst (debounceButton s i)) = debouncingRotEncByTable s"
  by (simp add: debounceButton_def nothingToDo_def Let_def case_prod_beta invoke_eq inert_def)

lemma debounceButton_table:
  "newTransition (fst (debounceButton s i)) = newTransition s"
  "transitions (fst (debounceButton s i)) = transitions s"
  "rotaryCallbacks (snd (debounceButton s i)) = []"
  by (simp_all add: debounceButton_def nothingToDo_def Let_def rotaryCallbacks_def invoke_eq
      case_prod_beta)

lemma table_fst:
  "newTransition (fst (debounceRotaryByTable s i)) =
     composeTransition (newTransition s) (clk i) (dat i)"
  "transitions (fst (debounceRotaryByTable s i)) =
     (if validTransitions ! unat (composeTransition (newTransition s) (clk i) (dat i)) \<noteq> 0
      then push_bit 4 (transitions s) OR ucast (composeTransition (newTransition s) (clk i) (dat i))
      else transitions s)"
  by (simp_all add: debounceRotaryByTable_def Let_def invoke_eq case_prod_beta)

lemma table_mode_inert:
  "inert s \<Longrightarrow>
   debouncingRotEncByTable (fst (debounceRotaryByTable s i)) = debouncingRotEncByTable s"
  by (simp add: debounceRotaryByTable_def Let_def invoke_eq case_prod_beta inert_def)

lemma table_snd:
  "rotaryCallbacks (snd (debounceRotaryByTable s i)) =
     (if validTransitions ! unat (composeTransition (newTransition s) (clk i) (dat i)) \<noteq> 0
      then (if (push_bit 4 (transitions s) OR
                ucast (composeTransition (newTransition s) (clk i) (dat i))) AND 0xff = 0x17
            then [OnCW] else []) @
           (if (push_bit 4 (transitions s) OR
                ucast (composeTransition (newTransition s) (clk i) (dat i))) AND 0xff = 0x2B
            then [OnCCW] else [])
      else [])"
  by (simp add: debounceRotaryByTable_def Let_def rotaryCallbacks_def invoke_eq case_prod_beta)

text \<open>
  One poll in table mode, seen from the rotary channel, with the default handler in
  every slot.
\<close>

lemma table_poll:
  assumes "debouncingRotEncByTable s" "inert s"
  shows "debouncingRotEncByTable (fst (loop s i))"
    and "newTransition (fst (loop s i)) = composeTransition (newTransition s) (clk i) (dat i)"
    and "transitions (fst (loop s i)) =
     (if validTransitions ! unat (composeTransition (newTransition s) (clk i) (dat i)) \<noteq> 0
      then push_bit 4 (transitions s) OR ucast (composeTransition (newTransition s) (clk i) (dat i))
      else transitions s)"
    and "rotaryCallbacks (snd (loop s i)) =
     (if validTransitions ! unat (composeTransition (newTransition s) (clk i) (dat i)) \<noteq> 0
      then (if (push_bit 4 (transitions s) OR
                ucast (composeTransition (newTransition s) (clk i) (dat i))) AND 0xff = 0x17
            then [OnCW] else []) @
           (if (push_bit 4 (transitions s) OR
                ucast (composeTransition (newTransition s) (clk i) (dat i))) AND 0xff = 0x2B
            then [OnCCW] else [])
      else [])"
  using assms
  by (simp_all add: loop_fst loop_snd debounceButton_mode_inert debounceButton_inert
      table_mode_inert debounceButton_table table_fst table_snd rotaryCallbacks_append)

lemma nibble_neq: "k AND 0xf \<noteq> v AND 0xf \<Longrightarrow> (push_bit 4 t OR k) AND 0xff \<noteq> (v::u16)"
proof
  assume n: "k AND 0xf \<noteq> v AND 0xf" and e: "(push_bit 4 t OR k) AND 0xff = v"
  have "((push_bit 4 t OR k) AND 0xff) AND 0xf = (push_bit 4 t OR k) AND 0xf"
    by (simp add: and.assoc)
  then have "v AND 0xf = k AND 0xf"
    by (simp only: e low_nibble_push)
  with n show False by simp
qed

lemma table_poll_invalid:
  assumes "tableChannel s = (True, c0, d0, L)" "clk i = c" "dat i = d" "(c0 = c) = (d0 = d)"
    and n: "inert s"
  shows "tableChannel (fst (loop s i)) = (True, c, d, L) \<and> rotaryCallbacks (snd (loop s i)) = []"
proof -
  from assms(1) have m: "debouncingRotEncByTable s" and b: "bit (newTransition s) 1 = c0"
    "bit (newTransition s) 0 = d0" and l: "transitions s AND 0xf = L"
    by (simp_all add: tableChannel_def)
  have idx: "composeTransition (newTransition s) (clk i) (dat i) = transitionIndex c0 d0 c d"
    using composeTransition_index [OF b] assms(2,3) by simp
  have inv: "validTransitions ! unat (transitionIndex c0 d0 c d) = 0"
    using assms(4) by (cases c0; cases d0; cases c; cases d; simp add: transitionIndex_def validTransitions_def)
  have bits: "bit (newTransition (fst (loop s i))) 1 = c" "bit (newTransition (fst (loop s i))) 0 = d"
    unfolding table_poll(2) [OF m n]
    using composeTransition_low_bits [of "newTransition s" "clk i" "dat i"] assms(2,3)
    by simp_all
  show ?thesis
    unfolding tableChannel_def bits table_poll(3,4) [OF m n] idx
    using table_poll(1) [OF m n] inv l
    by simp
qed

lemma table_poll_valid:
  assumes "tableChannel s = (True, c0, d0, L)" "clk i = c" "dat i = d" "(c0 = c) \<noteq> (d0 = d)"
    and n: "inert s"
  shows "tableChannel (fst (loop s i)) = (True, c, d, ucast (transitionIndex c0 d0 c d) AND 0xf)"
    and "rotaryCallbacks (snd (loop s i)) =
      (if push_bit 4 L OR (ucast (transitionIndex c0 d0 c d) AND 0xff) = 0x17
       then [OnCW] else []) @
      (if push_bit 4 L OR (ucast (transitionIndex c0 d0 c d) AND 0xff) = 0x2B
       then [OnCCW] else [])"
    and "ucast (transitionIndex c0 d0 c d) AND 0xf \<noteq> (7::u16) \<Longrightarrow>
         ucast (transitionIndex c0 d0 c d) AND 0xf \<noteq> (11::u16) \<Longrightarrow>
         rotaryCallbacks (snd (loop s i)) = []"
proof -
  from assms(1) have m: "debouncingRotEncByTable s" and b: "bit (newTransition s) 1 = c0"
    "bit (newTransition s) 0 = d0" and l: "transitions s AND 0xf = L"
    by (simp_all add: tableChannel_def)
  have idx: "composeTransition (newTransition s) (clk i) (dat i) = transitionIndex c0 d0 c d"
    using composeTransition_index [OF b] assms(2,3) by simp
  have val: "validTransitions ! unat (transitionIndex c0 d0 c d) \<noteq> 0"
    using assms(4)
    by (cases c0; cases d0; cases c; cases d; simp add: transitionIndex_def validTransitions_def)
  have bits: "bit (newTransition (fst (loop s i))) 1 = c" "bit (newTransition (fst (loop s i))) 0 = d"
    unfolding table_poll(2) [OF m n]
    using composeTransition_low_bits [of "newTransition s" "clk i" "dat i"] assms(2,3)
    by simp_all
  have tr: "transitions (fst (loop s i)) =
      push_bit 4 (transitions s) OR ucast (transitionIndex c0 d0 c d)"
    unfolding table_poll(3) [OF m n] idx using val by simp
  have cb: "rotaryCallbacks (snd (loop s i)) =
      (if (push_bit 4 (transitions s) OR ucast (transitionIndex c0 d0 c d)) AND 0xff = 0x17
       then [OnCW] else []) @
      (if (push_bit 4 (transitions s) OR ucast (transitionIndex c0 d0 c d)) AND 0xff = 0x2B
       then [OnCCW] else [])"
    unfolding table_poll(4) [OF m n] idx using val by simp
  show "tableChannel (fst (loop s i)) = (True, c, d, ucast (transitionIndex c0 d0 c d) AND 0xf)"
    unfolding tableChannel_def bits tr low_nibble_push using table_poll(1) [OF m n] by simp
  show "rotaryCallbacks (snd (loop s i)) =
      (if push_bit 4 L OR (ucast (transitionIndex c0 d0 c d) AND 0xff) = 0x17
       then [OnCW] else []) @
      (if push_bit 4 L OR (ucast (transitionIndex c0 d0 c d) AND 0xff) = 0x2B
       then [OnCCW] else [])"
    unfolding cb low_byte_push l ..
  assume "ucast (transitionIndex c0 d0 c d) AND 0xf \<noteq> (7::u16)"
    "ucast (transitionIndex c0 d0 c d) AND 0xf \<noteq> (11::u16)"
  then have "(push_bit 4 (transitions s) OR ucast (transitionIndex c0 d0 c d)) AND 0xff \<noteq> 0x17"
    "(push_bit 4 (transitions s) OR ucast (transitionIndex c0 d0 c d)) AND 0xff \<noteq> 0x2B"
    by (simp_all add: nibble_neq)
  then show "rotaryCallbacks (snd (loop s i)) = []"
    unfolding cb by simp
qed

lemma table_run_held:
  assumes "tableChannel s = (True, c0, d0, L)" "held c d is" "(c0 = c) = (d0 = d)" "inert s"
  shows "tableChannel (fst (run s is)) =
           (True, if is = [] then c0 else c, if is = [] then d0 else d, L) \<and>
         rotaryCallbacks (snd (run s is)) = []"
  using assms
proof (induction "is" arbitrary: s c0 d0)
  case Nil
  then show ?case by (simp add: rotaryCallbacks_def)
next
  case (Cons i "is")
  from Cons.prems(2) have i: "clk i = c" "dat i = d" and tl: "held c d is"
    by (simp_all add: held_def)
  note p = table_poll_invalid [OF Cons.prems(1) i Cons.prems(3,4)]
  from p have ch: "tableChannel (fst (loop s i)) = (True, c, d, L)" ..
  from Cons.prems(4) have n: "inert (fst (loop s i))"
    by (simp add: loop_inert)
  have "tableChannel (fst (run (fst (loop s i)) is)) =
           (True, if is = [] then c else c, if is = [] then d else d, L) \<and>
         rotaryCallbacks (snd (run (fst (loop s i)) is)) = []"
    by (rule Cons.IH [OF ch tl _ n]) simp
  with p show ?case
    by (simp add: run_fst_Cons run_snd_Cons rotaryCallbacks_append del: run.simps)
qed

lemma construct3_table:
  "tableChannel (fst (RotaryEncoder3 mem pc pd pb)) = (True, False, False, 0)"
  "inert (fst (RotaryEncoder3 mem pc pd pb))"
  by (simp_all add: RotaryEncoder3_def memberInit_def tableChannel_def inert_def)

lemma held_Cons: "held c d (i # is) = (clk i = c \<and> dat i = d \<and> held c d is)"
  by (simp add: held_def)

text \<open>A level pair reached by a valid transition and held for further polls.\<close>

lemma table_enter_and_hold:
  assumes ch: "tableChannel s = (True, c0, d0, L)"
    and h: "held c d (i # is)"
    and v: "(c0 = c) \<noteq> (d0 = d)"
    and n: "inert s"
  shows "tableChannel (fst (run s (i # is))) =
           (True, c, d, ucast (transitionIndex c0 d0 c d) AND 0xf)"
    and "rotaryCallbacks (snd (run s (i # is))) =
      (if push_bit 4 L OR (ucast (transitionIndex c0 d0 c d) AND 0xff) = 0x17
       then [OnCW] else []) @
      (if push_bit 4 L OR (ucast (transitionIndex c0 d0 c d) AND 0xff) = 0x2B
       then [OnCCW] else [])"
    and "ucast (transitionIndex c0 d0 c d) AND 0xf \<noteq> (7::u16) \<Longrightarrow>
         ucast (transitionIndex c0 d0 c d) AND 0xf \<noteq> (11::u16) \<Longrightarrow>
         rotaryCallbacks (snd (run s (i # is))) = []"
proof -
  from h have i: "clk i = c" "dat i = d" and tl: "held c d is"
    by (simp_all add: held_Cons)
  note p = table_poll_valid [OF ch i v n]
  from n have n1: "inert (fst (loop s i))"
    by (simp add: loop_inert)
  have r: "tableChannel (fst (run (fst (loop s i)) is)) =
           (True, if is = [] then c else c, if is = [] then d else d,
            ucast (transitionIndex c0 d0 c d) AND 0xf) \<and>
         rotaryCallbacks (snd (run (fst (loop s i)) is)) = []"
    by (rule table_run_held [OF p(1) tl _ n1]) simp
  from r show "tableChannel (fst (run s (i # is))) =
           (True, c, d, ucast (transitionIndex c0 d0 c d) AND 0xf)"
    by (simp add: run_fst_Cons del: run.simps)
  from r p(2) show "rotaryCallbacks (snd (run s (i # is))) =
      (if push_bit 4 L OR (ucast (transitionIndex c0 d0 c d) AND 0xff) = 0x17
       then [OnCW] else []) @
      (if push_bit 4 L OR (ucast (transitionIndex c0 d0 c d) AND 0xff) = 0x2B
       then [OnCCW] else [])"
    by (simp add: run_snd_Cons rotaryCallbacks_append del: run.simps)
  assume "ucast (transitionIndex c0 d0 c d) AND 0xf \<noteq> (7::u16)"
    "ucast (transitionIndex c0 d0 c d) AND 0xf \<noteq> (11::u16)"
  from p(3) [OF this] r show "rotaryCallbacks (snd (run s (i # is))) = []"
    by (simp add: run_snd_Cons rotaryCallbacks_append del: run.simps)
qed

text \<open>
  Claim C1: from a freshly built encoder, in table-lookup mode, the polls of one
  detent emit exactly one rotary callback, the one of the direction turned. The polls
  are: any number at rest (both lines high), then at least one with each of the three
  level pairs the detent passes through, then at least one at rest again; clockwise
  (\<open>cw\<close>) the data line goes low first and comes back first, counter-clockwise the
  clock line does. Two polls per level pair is the sequence of eight polls. The button levels and the clock readings of the
  polls are arbitrary.
\<close>

theorem one_detent_table:
  assumes A: "held True True A"
    and B: "B \<noteq> []" "held cw (\<not> cw) B"
    and C: "C \<noteq> []" "held False False C"
    and D: "D \<noteq> []" "held (\<not> cw) cw D"
    and E: "E \<noteq> []" "held True True E"
  shows "rotaryCallbacks (snd (run (fst (RotaryEncoder3 mem pc pd pb)) (A @ B @ C @ D @ E))) =
           [if cw then OnCW else OnCCW]"
proof -
  let ?s0 = "fst (RotaryEncoder3 mem pc pd pb)"
  let ?sA = "fst (run ?s0 A)"
  let ?sB = "fst (run ?sA B)"
  let ?sC = "fst (run ?sB C)"
  let ?sD = "fst (run ?sC D)"
  obtain b B' where Bc: "B = b # B'" using B(1) by (cases B) auto
  obtain c C' where Cc: "C = c # C'" using C(1) by (cases C) auto
  obtain d D' where Dc: "D = d # D'" using D(1) by (cases D) auto
  obtain e E' where Ec: "E = e # E'" using E(1) by (cases E) auto
  define a where "a = (A \<noteq> [])"
  have n0: "inert ?s0"
    by (rule construct3_table(2))
  have nA: "inert ?sA" and nB: "inert ?sB" and nC: "inert ?sC" and nD: "inert ?sD"
    using n0 by (simp_all only: run_inert)
  have rA: "tableChannel ?sA = (True, a, a, 0) \<and> rotaryCallbacks (snd (run ?s0 A)) = []"
    using table_run_held [OF construct3_table(1) A _ n0] by (simp add: a_def)
  then have chA: "tableChannel ?sA = (True, a, a, 0)" ..
  have vB: "(a = cw) \<noteq> (a = (\<not> cw))" by auto
  have iB: "ucast (transitionIndex a a cw (\<not> cw)) AND 0xf \<noteq> (7::u16)"
    "ucast (transitionIndex a a cw (\<not> cw)) AND 0xf \<noteq> (11::u16)"
    by (cases a; cases cw; simp add: transitionIndex_def)+
  note pB = table_enter_and_hold [OF chA B(2) [unfolded Bc] vB nA, folded Bc]
  have cbB: "rotaryCallbacks (snd (run ?sA B)) = []"
    by (rule pB(3) [OF iB])
  have vC: "(cw = False) \<noteq> ((\<not> cw) = False)" by auto
  have iC: "ucast (transitionIndex cw (\<not> cw) False False) AND 0xf \<noteq> (7::u16)"
    "ucast (transitionIndex cw (\<not> cw) False False) AND 0xf \<noteq> (11::u16)"
    by (cases cw; simp add: transitionIndex_def)+
  note pC = table_enter_and_hold [OF pB(1) C(2) [unfolded Cc] vC nB, folded Cc]
  have cbC: "rotaryCallbacks (snd (run ?sB C)) = []"
    by (rule pC(3) [OF iC])
  have vD: "(False = (\<not> cw)) \<noteq> (False = cw)" by auto
  have iD: "ucast (transitionIndex False False (\<not> cw) cw) AND 0xf \<noteq> (7::u16)"
    "ucast (transitionIndex False False (\<not> cw) cw) AND 0xf \<noteq> (11::u16)"
    by (cases cw; simp add: transitionIndex_def)+
  note pD = table_enter_and_hold [OF pC(1) D(2) [unfolded Dc] vD nC, folded Dc]
  have cbD: "rotaryCallbacks (snd (run ?sC D)) = []"
    by (rule pD(3) [OF iD])
  have vE: "((\<not> cw) = True) \<noteq> (cw = True)" by auto
  note pE = table_enter_and_hold [OF pD(1) E(2) [unfolded Ec] vE nD, folded Ec]
  have cbE: "rotaryCallbacks (snd (run ?sD E)) = [if cw then OnCW else OnCCW]"
    unfolding pE(2) by (cases cw; simp add: transitionIndex_def)
  show ?thesis
    using rA cbB cbC cbD cbE
    by (simp add: run_snd_append run_fst_append rotaryCallbacks_append)
qed

text \<open>The eight polls of a clockwise detent, and the eight of a counter-clockwise one.\<close>

theorem one_detent_table_witness:
  "held True False [sample 0 True True False, sample 1 True True False] \<and>
   held False False [sample 2 True False False, sample 3 True False False] \<and>
   held False True [sample 4 True False True, sample 5 True False True] \<and>
   held True True [sample 6 True True True, sample 7 True True True] \<and>
   rotaryCallbacks (snd (run ctrlKnob
     ([] @ [sample 0 True True False, sample 1 True True False] @
      [sample 2 True False False, sample 3 True False False] @
      [sample 4 True False True, sample 5 True False True] @
      [sample 6 True True True, sample 7 True True True]))) = [OnCW] \<and>
   rotaryCallbacks (snd (run ctrlKnob
     ([] @ [sample 4 True False True, sample 5 True False True] @
      [sample 2 True False False, sample 3 True False False] @
      [sample 0 True True False, sample 1 True True False] @
      [sample 6 True True True, sample 7 True True True]))) = [OnCCW]"
proof -
  have A: "held True True []"
    and B: "[sample 0 True True False, sample 1 True True False] \<noteq> []"
      "held True False [sample 0 True True False, sample 1 True True False]"
    and C: "[sample 2 True False False, sample 3 True False False] \<noteq> []"
      "held False False [sample 2 True False False, sample 3 True False False]"
    and D: "[sample 4 True False True, sample 5 True False True] \<noteq> []"
      "held False True [sample 4 True False True, sample 5 True False True]"
    and E: "[sample 6 True True True, sample 7 True True True] \<noteq> []"
      "held True True [sample 6 True True True, sample 7 True True True]"
    by (simp_all add: held_def sample_def)
  have cw: "rotaryCallbacks (snd (run ctrlKnob
     ([] @ [sample 0 True True False, sample 1 True True False] @
      [sample 2 True False False, sample 3 True False False] @
      [sample 4 True False True, sample 5 True False True] @
      [sample 6 True True True, sample 7 True True True]))) = [OnCW]"
    using one_detent_table [of "[]" _ True _ _ _ zeroMem 27 26 25, OF A B(1) _ C D(1) _ E]
      B(2) D(2)
    by (simp only: ctrlKnob_def simp_thms if_True)
  have ccw: "rotaryCallbacks (snd (run ctrlKnob
     ([] @ [sample 4 True False True, sample 5 True False True] @
      [sample 2 True False False, sample 3 True False False] @
      [sample 0 True True False, sample 1 True True False] @
      [sample 6 True True True, sample 7 True True True]))) = [OnCCW]"
    using one_detent_table [of "[]" _ False _ _ _ zeroMem 27 26 25, OF A D(1) _ C B(1) _ E]
      B(2) D(2)
    by (simp only: ctrlKnob_def simp_thms if_False)
  from B(2) C(2) D(2) E(2) cw ccw show ?thesis
    by blast
qed

section \<open>Polls with unchanged levels\<close>

lemma debounceButton_buttonState: "buttonState (fst (debounceButton s i)) = digitalRead (btn i)"
  by (simp add: debounceButton_def nothingToDo_def Let_def invoke_eq case_prod_beta)

lemma loop_buttonState: "buttonState (fst (loop s i)) = digitalRead (btn i)"
  using loop_button(1) [of s i] debounceButton_buttonState [of s i]
  by (simp add: buttonChannel_def)

lemma nothingToDo_prevButtonState:
  "nothingToDo (s\<lparr>prevButtonState := x\<rparr>) i =
     ((fst (nothingToDo s i))\<lparr>prevButtonState := x\<rparr>, snd (nothingToDo s i))"
  by (simp add: nothingToDo_def Let_def invoke_eq)

lemma debounceButton_repeat:
  assumes "buttonState s = digitalRead (btn i)"
  shows "debounceButton s i =
     ((fst (nothingToDo s i))\<lparr>prevButtonState := buttonState s\<rparr>,
      DigitalRead (pinButton s) # snd (nothingToDo s i))"
  using debounceButton_same [OF assms] by (simp add: nothingToDo_prevButtonState)

lemma table_invalid_eq:
  "validTransitions ! unat (composeTransition (newTransition s) (clk i) (dat i)) = 0 \<Longrightarrow>
   debounceRotaryByTable s i =
     (s\<lparr>newTransition := composeTransition (newTransition s) (clk i) (dat i)\<rparr>,
      [DigitalRead (pinClk s), DigitalRead (pinData s)])"
  by (simp add: debounceRotaryByTable_def Let_def)

lemma cleaning_settles: "settled (fst (debounceRotaryByCleaning s i)) (clk i) (dat i)"
  by (simp add: cleaning_fst rotationCallbacks_fst cleanClock_eq cleanData_eq settled_def)

lemma cleaning_settled:
  assumes "settled s (clk i) (dat i)"
  shows "debounceRotaryByCleaning s i = (s, [DigitalRead (pinClk s), DigitalRead (pinData s)])"
proof -
  from assms have e: "clkState s = digitalRead (clk i)" "prevClkState s = digitalRead (clk i)"
    "dataState s = digitalRead (dat i)" "prevDataState s = digitalRead (dat i)"
    and p: "prevCleanedClkState s = cleanedClkState s"
      "prevCleanedDataState s = cleanedDataState s"
    by (simp_all add: settled_def)
  have u: "s\<lparr>clkState := clkState s\<rparr> = s" "s\<lparr>dataState := dataState s\<rparr> = s"
    "s\<lparr>prevCleanedClkState := prevCleanedClkState s\<rparr> = s"
    "s\<lparr>prevCleanedDataState := prevCleanedDataState s\<rparr> = s"
    by simp_all
  have s12: "s\<lparr>clkState := digitalRead (clk i)\<rparr> = s"
    "s\<lparr>dataState := digitalRead (dat i)\<rparr> = s"
    using u(1,2) by (simp_all only: e)
  have s56: "s\<lparr>prevCleanedClkState := cleanedClkState s\<rparr> = s"
    "s\<lparr>prevCleanedDataState := cleanedDataState s\<rparr> = s"
    using u(3,4) by (simp_all only: p)
  have n: "(cleanedClkState s = LOW \<and> cleanedClkState s = HIGH) = False"
    "(cleanedDataState s = LOW \<and> cleanedDataState s = HIGH) = False"
    by auto
  have q: "prevClkState s = clkState s" "prevDataState s = dataState s"
    using e by simp_all
  have cc: "cleanClock s = (s, [])" and cd: "cleanData s = (s, [])"
    by (simp_all add: cleanClock_def cleanData_def q)
  have rc: "rotationCallbacks s = (s, [])"
    by (simp add: rotationCallbacks_def Let_def p n)
  show ?thesis
    unfolding debounceRotaryByCleaning_def Let_def s12
    by (simp add: cc cd rc s56)
qed

lemma nothingToDo_settled: "settled (fst (nothingToDo s i)) c d = settled s c d"
  by (simp add: nothingToDo_def settled_def Let_def invoke_eq)

lemma loop_cleaning_settles:
  "\<not> debouncingRotEncByTable (fst (debounceButton s i)) \<Longrightarrow>
   settled (fst (loop s i)) (clk i) (dat i)"
  by (simp add: loop_fst cleaning_settles)

lemma loop_table_index:
  "debouncingRotEncByTable (fst (debounceButton s i)) \<Longrightarrow>
   newTransition (fst (loop s i)) = composeTransition (newTransition s) (clk i) (dat i)"
  by (simp add: loop_fst table_fst debounceButton_table)

lemma nothingToDo_callbacks:
  "callbacks (snd (nothingToDo s i)) = [] \<or> callbacks (snd (nothingToDo s i)) = [OnClick] \<or>
   callbacks (snd (nothingToDo s i)) = [OnDoubleClick]"
  by (simp add: nothingToDo_def Let_def invoke_eq)

lemma nothingToDo_quiet:
  assumes "callbacks (snd (nothingToDo s i)) = []"
  shows "fst (nothingToDo s i) = s"
proof (cases "clickCount s = 1 \<and> msDoubleClickGap s < ms1 i - msFirstClick s")
  case True
  then have "callbacks (snd (nothingToDo s i)) = [OnClick]"
    by (simp add: nothingToDo_def invoke_eq)
  with assms show ?thesis by simp
next
  case a: False
  show ?thesis
  proof (cases "1 < clickCount s")
    case True
    with a have "callbacks (snd (nothingToDo s i)) = [OnDoubleClick]"
      by (auto simp add: nothingToDo_def invoke_eq)
    with assms show ?thesis by simp
  next
    case False
    with a show ?thesis
      by (auto simp add: nothingToDo_def)
  qed
qed

text \<open>
  A poll that finds the button level it left, and whose rotary pass finds what the
  same pass left at the same levels: the table pass an index that repeats, the
  cleaning pass a settled state.
\<close>

lemma repeat_poll:
  assumes same: "buttonState t = digitalRead (btn i)"
    and tab: "debouncingRotEncByTable (fst (debounceButton t i)) \<Longrightarrow>
      validTransitions ! unat (composeTransition (newTransition t) (clk i) (dat i)) = 0"
    and cln: "\<not> debouncingRotEncByTable (fst (debounceButton t i)) \<Longrightarrow>
      settled t (clk i) (dat i)"
  shows "callbacks (snd (loop t i)) = callbacks (snd (nothingToDo t i))"
    and "fst (loop t i) =
      (if debouncingRotEncByTable (fst (debounceButton t i))
       then (fst (nothingToDo t i))
              \<lparr>prevButtonState := buttonState t,
               newTransition := composeTransition (newTransition t) (clk i) (dat i)\<rparr>
       else (fst (nothingToDo t i))\<lparr>prevButtonState := buttonState t\<rparr>)"
proof -
  let ?sb = "(fst (nothingToDo t i))\<lparr>prevButtonState := buttonState t\<rparr>"
  note db = debounceButton_repeat [OF same]
  have f: "fst (debounceButton t i) = ?sb"
    and e: "snd (debounceButton t i) = DigitalRead (pinButton t) # snd (nothingToDo t i)"
    by (simp_all add: db)
  have nt_b: "newTransition ?sb = newTransition t"
    by (simp add: nothingToDo_def Let_def invoke_eq)
  have rot: "(if debouncingRotEncByTable ?sb
       then debounceRotaryByTable ?sb i else debounceRotaryByCleaning ?sb i) =
      (if debouncingRotEncByTable ?sb
       then ?sb\<lparr>newTransition := composeTransition (newTransition t) (clk i) (dat i)\<rparr>
       else ?sb, [DigitalRead (pinClk ?sb), DigitalRead (pinData ?sb)])"
  proof (cases "debouncingRotEncByTable ?sb")
    case True
    have "validTransitions ! unat (composeTransition (newTransition ?sb) (clk i) (dat i)) = 0"
      unfolding nt_b by (rule tab [unfolded f, OF True])
    from table_invalid_eq [OF this] True show ?thesis
      by (simp add: nt_b)
  next
    case False
    from cln [unfolded f, OF False] have "settled ?sb (clk i) (dat i)"
      by (simp add: settled_def nothingToDo_settled [unfolded settled_def])
    from cleaning_settled [OF this] False show ?thesis
      by simp
  qed
  have rs: "(if debouncingRotEncByTable ?sb
       then snd (debounceRotaryByTable ?sb i) else snd (debounceRotaryByCleaning ?sb i)) =
      [DigitalRead (pinClk ?sb), DigitalRead (pinData ?sb)]"
    using rot by (cases "debouncingRotEncByTable ?sb") simp_all
  have rf: "(if debouncingRotEncByTable ?sb
       then fst (debounceRotaryByTable ?sb i) else fst (debounceRotaryByCleaning ?sb i)) =
      (if debouncingRotEncByTable ?sb
       then ?sb\<lparr>newTransition := composeTransition (newTransition t) (clk i) (dat i)\<rparr>
       else ?sb)"
    using rot by (cases "debouncingRotEncByTable ?sb") simp_all
  show "callbacks (snd (loop t i)) = callbacks (snd (nothingToDo t i))"
    unfolding loop_snd f e rs by (simp add: callbacks_append)
  show "fst (loop t i) =
      (if debouncingRotEncByTable (fst (debounceButton t i))
       then (fst (nothingToDo t i))
              \<lparr>prevButtonState := buttonState t,
               newTransition := composeTransition (newTransition t) (clk i) (dat i)\<rparr>
       else ?sb)"
    unfolding loop_fst f rf by simp
qed

lemma nothingToDo_transitions: "transitions (fst (nothingToDo s i)) = transitions s"
  by (simp add: nothingToDo_def Let_def invoke_eq)

text \<open>The configuration operations leave the members of both channels alone.\<close>

lemma configure1_members:
  "buttonState (configure1 s op) = buttonState s"
  "newTransition (configure1 s op) = newTransition s"
  "settled (configure1 s op) c d = settled s c d"
  by (cases op; simp add: setDebouncingRotEncByTable_def addOnClickCB_def addOnLongClickCB_def
      addOnDoubleClickCB_def addOnClockwiseCB_def addOnCounterClockwiseCB_def settled_def)+

lemma configure_members:
  "buttonState (configure s ops) = buttonState s"
  "newTransition (configure s ops) = newTransition s"
  "settled (configure s ops) c d = settled s c d"
  by (induction ops arbitrary: s; simp add: configure_def configure1_members)+

text \<open>
  Claim C9, as the code has it. Take a poll \<open>i2\<close> that reads the same three levels as
  the poll \<open>i1\<close> before it, the caller having made any calls \<open>ops\<close> of the
  configuration operations in between, and let the rotary pass of \<open>i2\<close> run the
  algorithm that the rotary pass of \<open>i1\<close> ran (the mode each pass runs in is read
  after the button pass of its poll, so neither the calls \<open>ops\<close>, nor a handler called
  by the rotary pass of \<open>i1\<close>, nor the handler of a click or double click falling due
  in \<open>i2\<close> has left the other mode behind). Then the poll \<open>i2\<close> makes no rotary
  callback; its only callbacks are those of the no-edge branch of the button
  classifier (a click or a double click falling due). The state after it is the state
  before it, except for the previous button level, which now equals the current one,
  for the index \<^verbatim>\<open>_newTransition\<close> when the pass is the table algorithm, which becomes
  the index of the repeat, and for what the no-edge branch does when a click falls
  due: it clears the accumulator and runs the handler. The history is unchanged.
\<close>

theorem repeated_levels_poll:
  assumes lv: "btn i2 = btn i1" "clk i2 = clk i1" "dat i2 = dat i1"
    and alg: "debouncingRotEncByTable (fst (debounceButton (afterPoll s i1 ops) i2)) =
              debouncingRotEncByTable (fst (debounceButton s i1))"
  shows "rotaryCallbacks (snd (loop (afterPoll s i1 ops) i2)) = [] \<and>
    callbacks (snd (loop (afterPoll s i1 ops) i2)) =
      callbacks (snd (nothingToDo (afterPoll s i1 ops) i2)) \<and>
    (callbacks (snd (loop (afterPoll s i1 ops) i2)) = [] \<or>
     callbacks (snd (loop (afterPoll s i1 ops) i2)) = [OnClick] \<or>
     callbacks (snd (loop (afterPoll s i1 ops) i2)) = [OnDoubleClick]) \<and>
    fst (loop (afterPoll s i1 ops) i2) =
      (if debouncingRotEncByTable (fst (debounceButton (afterPoll s i1 ops) i2))
       then (fst (nothingToDo (afterPoll s i1 ops) i2))
              \<lparr>prevButtonState := buttonState (afterPoll s i1 ops),
               newTransition :=
                 composeTransition (newTransition (afterPoll s i1 ops)) (clk i2) (dat i2)\<rparr>
       else (fst (nothingToDo (afterPoll s i1 ops) i2))
              \<lparr>prevButtonState := buttonState (afterPoll s i1 ops)\<rparr>) \<and>
    (callbacks (snd (loop (afterPoll s i1 ops) i2)) = [] \<longrightarrow>
     fst (loop (afterPoll s i1 ops) i2) =
      (if debouncingRotEncByTable (afterPoll s i1 ops)
       then (afterPoll s i1 ops)
              \<lparr>prevButtonState := buttonState (afterPoll s i1 ops),
               newTransition :=
                 composeTransition (newTransition (afterPoll s i1 ops)) (clk i2) (dat i2)\<rparr>
       else (afterPoll s i1 ops)\<lparr>prevButtonState := buttonState (afterPoll s i1 ops)\<rparr>)) \<and>
    transitions (fst (loop (afterPoll s i1 ops) i2)) = transitions (afterPoll s i1 ops)"
proof -
  let ?t = "afterPoll s i1 ops"
  let ?m = "debouncingRotEncByTable (fst (debounceButton ?t i2))"
  have same: "buttonState ?t = digitalRead (btn i2)"
    by (simp add: afterPoll_def configure_members loop_buttonState lv)
  have tab: "validTransitions ! unat (composeTransition (newTransition ?t) (clk i2) (dat i2)) = 0"
    if "?m"
  proof -
    from that alg have "debouncingRotEncByTable (fst (debounceButton s i1))"
      by simp
    then have nt: "newTransition ?t = composeTransition (newTransition s) (clk i1) (dat i1)"
      by (simp add: afterPoll_def configure_members loop_table_index)
    show ?thesis
      unfolding lv nt by (rule repeat_invalid)
  qed
  have cln: "settled ?t (clk i2) (dat i2)" if "\<not> ?m"
  proof -
    from that alg have "\<not> debouncingRotEncByTable (fst (debounceButton s i1))"
      by simp
    then have "settled (fst (loop s i1)) (clk i1) (dat i1)"
      by (rule loop_cleaning_settles)
    then show ?thesis
      by (simp add: afterPoll_def configure_members lv)
  qed
  have cb: "callbacks (snd (loop ?t i2)) = callbacks (snd (nothingToDo ?t i2))"
    using same tab cln by (rule repeat_poll(1))
  have st: "fst (loop ?t i2) =
      (if ?m
       then (fst (nothingToDo ?t i2))
              \<lparr>prevButtonState := buttonState ?t,
               newTransition := composeTransition (newTransition ?t) (clk i2) (dat i2)\<rparr>
       else (fst (nothingToDo ?t i2))\<lparr>prevButtonState := buttonState ?t\<rparr>)"
    using same tab cln by (rule repeat_poll(2))
  note three = nothingToDo_callbacks [of ?t i2]
  have rot: "rotaryCallbacks (snd (loop ?t i2)) = []"
    using three by (auto simp: rotaryCallbacks_def cb)
  have quiet: "fst (loop ?t i2) =
      (if debouncingRotEncByTable ?t
       then ?t\<lparr>prevButtonState := buttonState ?t,
               newTransition := composeTransition (newTransition ?t) (clk i2) (dat i2)\<rparr>
       else ?t\<lparr>prevButtonState := buttonState ?t\<rparr>)"
    if "callbacks (snd (loop ?t i2)) = []"
  proof -
    from that cb have "callbacks (snd (nothingToDo ?t i2)) = []"
      by simp
    then have q: "fst (nothingToDo ?t i2) = ?t"
      by (rule nothingToDo_quiet)
    have "fst (debounceButton ?t i2) = ?t\<lparr>prevButtonState := buttonState ?t\<rparr>"
      unfolding debounceButton_repeat [OF same] q by simp
    then have "?m = debouncingRotEncByTable ?t"
      by simp
    with st q show ?thesis
      by (simp only:)
  qed
  have tr: "transitions (fst (loop ?t i2)) = transitions ?t"
    unfolding st by (simp add: nothingToDo_transitions)
  from rot cb three [folded cb] st quiet tr show ?thesis
    by blast
qed

text \<open>
  Two polls 5 ms apart with the clock line high and the data line low, the caller
  registering the click and long-click handlers of the test program in between.
\<close>

theorem repeated_levels_poll_witness:
  "btn (sample 5 True True False) = btn (sample 0 True True False) \<and>
   clk (sample 5 True True False) = clk (sample 0 True True False) \<and>
   dat (sample 5 True True False) = dat (sample 0 True True False) \<and>
   debouncingRotEncByTable (fst (debounceButton
     (afterPoll ctrlKnob (sample 0 True True False)
        [AddOnClickCB (SetsByTable True), AddOnLongClickCB (SetsByTable False)])
     (sample 5 True True False))) =
   debouncingRotEncByTable (fst (debounceButton ctrlKnob (sample 0 True True False))) \<and>
   rotaryCallbacks (snd (loop
     (afterPoll ctrlKnob (sample 0 True True False)
        [AddOnClickCB (SetsByTable True), AddOnLongClickCB (SetsByTable False)])
     (sample 5 True True False))) = [] \<and>
   transitions (fst (loop
     (afterPoll ctrlKnob (sample 0 True True False)
        [AddOnClickCB (SetsByTable True), AddOnLongClickCB (SetsByTable False)])
     (sample 5 True True False))) =
   transitions
     (afterPoll ctrlKnob (sample 0 True True False)
        [AddOnClickCB (SetsByTable True), AddOnLongClickCB (SetsByTable False)])"
proof -
  have lv: "btn (sample 5 True True False) = btn (sample 0 True True False)"
    "clk (sample 5 True True False) = clk (sample 0 True True False)"
    "dat (sample 5 True True False) = dat (sample 0 True True False)"
    by (simp_all add: sample_def)
  have alg: "debouncingRotEncByTable (fst (debounceButton
     (afterPoll ctrlKnob (sample 0 True True False)
        [AddOnClickCB (SetsByTable True), AddOnLongClickCB (SetsByTable False)])
     (sample 5 True True False))) =
   debouncingRotEncByTable (fst (debounceButton ctrlKnob (sample 0 True True False)))"
    by (simp add: eval_defs afterPoll_def configure_def addOnClickCB_def addOnLongClickCB_def)
  from repeated_levels_poll [OF lv alg] lv alg show ?thesis
    by blast
qed

text \<open>
  The premise on the algorithm is needed. In cleaning mode, with the click handler of
  the test program registered, a poll with unchanged levels in which a click falls due
  runs the table pass. That pass finds the index the constructor left and takes the
  levels for a valid transition: the history goes from 0 to 2.
\<close>

lemma repeat_poll_other_algorithm:
  "\<not> debouncingRotEncByTable (fst (debounceButton
       (fst (run (addOnClickCB (setDebouncingRotEncByTable ctrlKnob False) (SetsByTable True))
          [sample 0 False True False, sample 100 True True False]))
       (sample 200 True True False))) \<and>
   debouncingRotEncByTable (fst (debounceButton
       (afterPoll
          (fst (run (addOnClickCB (setDebouncingRotEncByTable ctrlKnob False) (SetsByTable True))
             [sample 0 False True False, sample 100 True True False]))
          (sample 200 True True False) [])
       (sample 400 True True False))) \<and>
   callbacks (snd (loop (afterPoll
          (fst (run (addOnClickCB (setDebouncingRotEncByTable ctrlKnob False) (SetsByTable True))
             [sample 0 False True False, sample 100 True True False]))
          (sample 200 True True False) [])
       (sample 400 True True False))) = [OnClick] \<and>
   transitions (afterPoll
          (fst (run (addOnClickCB (setDebouncingRotEncByTable ctrlKnob False) (SetsByTable True))
             [sample 0 False True False, sample 100 True True False]))
          (sample 200 True True False) []) = 0 \<and>
   transitions (fst (loop (afterPoll
          (fst (run (addOnClickCB (setDebouncingRotEncByTable ctrlKnob False) (SetsByTable True))
             [sample 0 False True False, sample 100 True True False]))
          (sample 200 True True False) [])
       (sample 400 True True False))) = 2"
  by (simp add: eval_defs afterPoll_def configure_def addOnClickCB_def)

text \<open>
  Claim C9 as stated fails: in table mode, after a poll that saw the clock line high
  and the data line low, a second poll with the same levels makes no callback and
  still changes the state: \<^verbatim>\<open>_newTransition\<close> goes from 0b0010 to 0b1010.
\<close>

theorem repeated_poll_changes_newTransition:
  "newTransition (fst (loop ctrlKnob (sample 0 True True False))) = 2 \<and>
   callbacks (snd (loop (fst (loop ctrlKnob (sample 0 True True False)))
     (sample 5 True True False))) = [] \<and>
   newTransition (fst (loop (fst (loop ctrlKnob (sample 0 True True False)))
     (sample 5 True True False))) = 10"
  by (simp add: eval_defs)

end
